theory Spec2Isabelle
  imports Main
begin

section \<open>JavaScript values and the record store\<close>

text \<open>
  The values the plugin reads from records and from write payloads are strings,
  \<^verbatim>\<open>null\<close> or \<^verbatim>\<open>undefined\<close> (the custom field is registered with type
  \<^verbatim>\<open>string\<close>). An object is a total function from property names to values, an absent
  property reading \<^verbatim>\<open>undefined\<close>.
\<close>

datatype jsval = Undefined | Null | Str string

type_synonym obj = "string \<Rightarrow> jsval"

text \<open>JavaScript truthiness: \<^verbatim>\<open>!v\<close> is true for undefined, null and the empty string.\<close>

fun truthy :: "jsval \<Rightarrow> bool" where
  "truthy (Str s) = (s \<noteq> [])"
| "truthy _ = False"

text \<open>\<^verbatim>\<open>a || b\<close>\<close>

definition js_or :: "jsval \<Rightarrow> jsval \<Rightarrow> jsval" where
  "js_or a b = (if truthy a then a else b)"

type_synonym uid = string
type_synonym field = string
type_synonym docId = string

text \<open>
  A stored row: its storage row id, its \<^verbatim>\<open>documentId\<close> (the Record Identity, shared by
  the revisions of one document) and its attributes.
\<close>

record row =
  row_id :: nat
  documentId :: docId
  attrs :: obj

type_synonym db = "uid \<Rightarrow> row list"

text \<open>
  The uuid package is an external dependency. Its generators are an entropy source: the
  model takes the sequence of values that successive calls return as a parameter, and
  the state counts the calls made so far. \<^verbatim>\<open>uuidLib.v7\<close> may be missing from the
  installed package. The write interface of the document service may throw (a rejected
  or failed write); which writes do is a parameter too.
\<close>

record env =
  uuidv4 :: "nat \<Rightarrow> string"
  lib_v7 :: "(nat \<Rightarrow> string) option"
  update_throws :: "uid \<Rightarrow> row list \<Rightarrow> docId \<Rightarrow> field \<Rightarrow> string \<Rightarrow> bool"

record state =
  store :: db
  drawn :: nat

datatype error =
    ApplicationError uid field nat
  | ValidationError field string
  | TypeError
  | WriteError

subsection \<open>The format validator\<close>

text \<open>
  Modelled from the spec: \<^verbatim>\<open>validate\<close> of the uuid package is not part of the
  repository. The standard layout is 36 characters, five groups of hexadecimal digits
  (8-4-4-4-12) separated by hyphens, with the version nibble in 1..8 and the variant
  nibble in 8, 9, a, b; upper and lower case are accepted, and so are the nil and the max
  identifier.
\<close>

definition hexdigits :: string where
  "hexdigits = ''0123456789abcdefABCDEF''"

fun matches :: "string list \<Rightarrow> string \<Rightarrow> bool" where
  "matches [] [] = True"
| "matches (c # cs) (x # xs) = (x \<in> set c \<and> matches cs xs)"
| "matches _ _ = False"

definition layout :: "string \<Rightarrow> string \<Rightarrow> string \<Rightarrow> string list" where
  "layout h ver var =
     replicate 8 h @ [''-''] @ replicate 4 h @ [''-''] @ [ver] @ replicate 3 h @ [''-'']
       @ [var] @ replicate 3 h @ [''-''] @ replicate 12 h"

definition validateUuid :: "jsval \<Rightarrow> bool" where
  "validateUuid v =
     (case v of
        Str s \<Rightarrow>
          matches (layout hexdigits ''12345678'' ''89abAB'') s
          \<or> matches (layout ''0'' ''0'' ''0'') s
          \<or> matches (layout ''fF'' ''fF'' ''fF'') s
      | _ \<Rightarrow> False)"

subsection \<open>The document service\<close>

text \<open>
  Modelled from the spec: the query interface over records
  (\<^verbatim>\<open>strapi.documents(uid)\<close>) is the host framework's. \<^verbatim>\<open>findMany\<close> with
  \<^verbatim>\<open>limit: -1\<close> returns the rows in storage order, \<^verbatim>\<open>findFirst\<close> the first row
  that passes the filters, \<^verbatim>\<open>update\<close> writes one attribute of the rows of a
  \<^verbatim>\<open>documentId\<close>.
\<close>

definition findMany :: "db \<Rightarrow> uid \<Rightarrow> row list" where
  "findMany d u = d u"

text \<open>\<^verbatim>\<open>filters: { [field]: uuid, documentId: { $ne: exclude } }\<close>\<close>

definition findFirst_value :: "db \<Rightarrow> uid \<Rightarrow> field \<Rightarrow> string \<Rightarrow> docId option \<Rightarrow> row option" where
  "findFirst_value d u f v ex =
     find (\<lambda>r. attrs r f = Str v \<and> (case ex of None \<Rightarrow> True | Some x \<Rightarrow> documentId r \<noteq> x)) (d u)"

text \<open>\<^verbatim>\<open>filters: { id: where.id }\<close>\<close>

definition findFirst_id :: "db \<Rightarrow> uid \<Rightarrow> nat \<Rightarrow> row option" where
  "findFirst_id d u i = find (\<lambda>r. row_id r = i) (d u)"


text \<open>\<^verbatim>\<open>filters: { $or: [{ [field]: { $null: true } }, { [field]: '' }] }\<close>\<close>

definition is_empty_value :: "jsval \<Rightarrow> bool" where
  "is_empty_value v = (v = Undefined \<or> v = Null \<or> v = Str [])"

definition findMany_empty :: "db \<Rightarrow> uid \<Rightarrow> field \<Rightarrow> row list" where
  "findMany_empty d u f = filter (\<lambda>r. is_empty_value (attrs r f)) (d u)"

definition write_field :: "docId \<Rightarrow> field \<Rightarrow> string \<Rightarrow> row \<Rightarrow> row" where
  "write_field x f v r = (if documentId r = x then r\<lparr>attrs := (attrs r)(f := Str v)\<rparr> else r)"

definition update :: "env \<Rightarrow> state \<Rightarrow> uid \<Rightarrow> docId \<Rightarrow> field \<Rightarrow> string \<Rightarrow> error + state" where
  "update e s u x f v =
     (if update_throws e u (store s u) x f v then Inl WriteError
      else Inr (s\<lparr>store := (store s)(u := map (write_field x f v) (store s u))\<rparr>))"

section \<open>The write-time guard (server/src/bootstrap.js)\<close>

record pluginConfig =
  cfg_defaultVersion :: "string option"
  cfg_autoGenerate :: "bool option"
  cfg_validateUniqueness :: "bool option"
  cfg_maxRetryAttempts :: "nat option"

record config =
  defaultVersion :: string
  autoGenerate :: bool
  validateUniqueness :: bool
  maxRetryAttempts :: nat

text \<open>
  The defaults of \<^verbatim>\<open>bootstrap\<close>: \<^verbatim>\<open>x || d\<close> replaces a missing, empty or zero
  setting, \<^verbatim>\<open>x !== false\<close> is true unless the setting is \<^verbatim>\<open>false\<close>.
\<close>

definition mk_config :: "pluginConfig \<Rightarrow> config" where
  "mk_config p =
     \<lparr> defaultVersion = (case cfg_defaultVersion p of None \<Rightarrow> ''v4'' | Some v \<Rightarrow> if v = [] then ''v4'' else v),
       autoGenerate = (cfg_autoGenerate p \<noteq> Some False),
       validateUniqueness = (cfg_validateUniqueness p \<noteq> Some False),
       maxRetryAttempts = (case cfg_maxRetryAttempts p of None \<Rightarrow> 3 | Some n \<Rightarrow> if n = 0 then 3 else n) \<rparr>"

definition uuidv7 :: "env \<Rightarrow> nat \<Rightarrow> string" where
  "uuidv7 e = (case lib_v7 e of Some g \<Rightarrow> g | None \<Rightarrow> uuidv4 e)"

text \<open>One call of \<^verbatim>\<open>generateUuid\<close>: the next value of the library, and the call counted.\<close>

definition generateUuid :: "env \<Rightarrow> string \<Rightarrow> state \<Rightarrow> string \<times> state" where
  "generateUuid e version s =
     ((if version = ''v7'' then uuidv7 e (drawn s) else uuidv4 e (drawn s)),
      s\<lparr>drawn := Suc (drawn s)\<rparr>)"

record exists_result =
  exists :: bool
  owner :: jsval

definition checkUuidExists ::
  "config \<Rightarrow> db \<Rightarrow> uid \<Rightarrow> field \<Rightarrow> string \<Rightarrow> jsval \<Rightarrow> exists_result" where
  "checkUuidExists c d u f v excludeDocumentId =
     (if \<not> validateUniqueness c then \<lparr>exists = False, owner = Null\<rparr>
      else
        let ex = (case excludeDocumentId of Str x \<Rightarrow> if x \<noteq> [] then Some x else None | _ \<Rightarrow> None)
        in case findFirst_value d u f v ex of
             None \<Rightarrow> \<lparr>exists = False, owner = Null\<rparr>
           | Some r \<Rightarrow> \<lparr>exists = True, owner = js_or (Str (documentId r)) Null\<rparr>)"

definition isUuidExists :: "config \<Rightarrow> db \<Rightarrow> uid \<Rightarrow> field \<Rightarrow> string \<Rightarrow> jsval \<Rightarrow> bool" where
  "isUuidExists c d u f v excludeDocumentId = exists (checkUuidExists c d u f v excludeDocumentId)"

text \<open>
  The loop of \<^verbatim>\<open>generateUniqueUuid\<close>, \<open>k\<close> attempts left. The state is returned
  with the error too: the calls of the generator were made.
\<close>

fun retry_loop :: "config \<Rightarrow> env \<Rightarrow> uid \<Rightarrow> field \<Rightarrow> nat \<Rightarrow> state \<Rightarrow> (error + string) \<times> state" where
  "retry_loop c e u f 0 s = (Inl (ApplicationError u f (maxRetryAttempts c)), s)"
| "retry_loop c e u f (Suc k) s =
     (let (newUuid, s') = generateUuid e (defaultVersion c) s in
      if \<not> validateUniqueness c then (Inr newUuid, s')
      else if \<not> isUuidExists c (store s') u f newUuid Null then (Inr newUuid, s')
      else retry_loop c e u f k s')"

definition generateUniqueUuid :: "config \<Rightarrow> env \<Rightarrow> uid \<Rightarrow> field \<Rightarrow> state \<Rightarrow> (error + string) \<times> state" where
  "generateUniqueUuid c e u f s = retry_loop c e u f (maxRetryAttempts c) s"

record where_clause =
  where_documentId :: jsval
  where_id :: "nat option"

definition getDocumentIdFromWhere :: "db \<Rightarrow> uid \<Rightarrow> where_clause option \<Rightarrow> jsval" where
  "getDocumentIdFromWhere d u w =
     (case w of
        None \<Rightarrow> Null
      | Some wh \<Rightarrow>
          if truthy (where_documentId wh) then where_documentId wh
          else (case where_id wh of
                  None \<Rightarrow> Null
                | Some i \<Rightarrow>
                    if i = 0 then Null
                    else (case findFirst_id d u i of
                            None \<Rightarrow> Null
                          | Some r \<Rightarrow> js_or (Str (documentId r)) Null)))"

record params =
  data :: obj
  where_c :: "where_clause option"

text \<open>The monitored fields: \<^verbatim>\<open>models[model.uid]\<close>, a list of field names or undefined.\<close>

type_synonym models = "(uid \<times> field list) list"

text \<open>One turn of the loop of \<^verbatim>\<open>beforeCreate\<close> over the fields.\<close>

definition create_field ::
  "config \<Rightarrow> env \<Rightarrow> uid \<Rightarrow> jsval \<Rightarrow> field \<Rightarrow> obj \<Rightarrow> state \<Rightarrow> (error + obj) \<times> state" where
  "create_field c e u currentDocumentId f dat s =
     (let currentValue = dat f in
      if (\<not> truthy currentValue \<or> \<not> validateUuid currentValue) \<and> autoGenerate c then
        (case generateUniqueUuid c e u f s of
           (Inl err, s') \<Rightarrow> (Inl err, s')
         | (Inr v, s') \<Rightarrow> (Inr (dat(f := Str v)), s'))
      else if truthy currentValue \<and> validateUniqueness c then
        (let r = checkUuidExists c (store s) u f (case currentValue of Str v \<Rightarrow> v | _ \<Rightarrow> []) Null in
         if exists r then
           (if truthy currentDocumentId \<and> owner r = currentDocumentId then (Inr dat, s)
            else if \<not> truthy currentDocumentId \<and> truthy (owner r) then (Inr dat, s)
            else (case generateUniqueUuid c e u f s of
                    (Inl err, s') \<Rightarrow> (Inl err, s')
                  | (Inr v, s') \<Rightarrow> (Inr (dat(f := Str v)), s')))
         else (Inr dat, s))
      else (Inr dat, s))"

fun create_fields ::
  "config \<Rightarrow> env \<Rightarrow> uid \<Rightarrow> jsval \<Rightarrow> field list \<Rightarrow> obj \<Rightarrow> state \<Rightarrow> (error + obj) \<times> state" where
  "create_fields c e u cur [] dat s = (Inr dat, s)"
| "create_fields c e u cur (f # fs) dat s =
     (case create_field c e u cur f dat s of
        (Inl err, s') \<Rightarrow> (Inl err, s')
      | (Inr dat', s') \<Rightarrow> create_fields c e u cur fs dat' s')"

definition beforeCreate ::
  "config \<Rightarrow> env \<Rightarrow> models \<Rightarrow> uid \<Rightarrow> params \<Rightarrow> state \<Rightarrow> (error + obj) \<times> state" where
  "beforeCreate c e ms u p s =
     (case map_of ms u of
        None \<Rightarrow> (Inr (data p), s)
      | Some uuidFields \<Rightarrow>
          let currentDocumentId =
                js_or (data p ''documentId'')
                  (case where_c p of None \<Rightarrow> Undefined | Some w \<Rightarrow> where_documentId w)
          in create_fields c e u currentDocumentId uuidFields (data p) s)"

text \<open>One turn of the loop of \<^verbatim>\<open>beforeUpdate\<close>; the hook never changes the payload.\<close>

definition update_field :: "config \<Rightarrow> db \<Rightarrow> uid \<Rightarrow> jsval \<Rightarrow> obj \<Rightarrow> field \<Rightarrow> error option" where
  "update_field c d u docId dat f =
     (let newValue = dat f in
      if newValue = Undefined then None
      else if truthy newValue \<and> \<not> validateUuid newValue then
        Some (ValidationError f (case newValue of Str v \<Rightarrow> v | _ \<Rightarrow> []))
      else if truthy newValue \<and> validateUniqueness c
              \<and> isUuidExists c d u f (case newValue of Str v \<Rightarrow> v | _ \<Rightarrow> []) docId then
        Some (ValidationError f (case newValue of Str v \<Rightarrow> v | _ \<Rightarrow> []))
      else None)"

fun update_fields :: "config \<Rightarrow> db \<Rightarrow> uid \<Rightarrow> jsval \<Rightarrow> obj \<Rightarrow> field list \<Rightarrow> error option" where
  "update_fields c d u docId dat [] = None"
| "update_fields c d u docId dat (f # fs) =
     (case update_field c d u docId dat f of
        Some err \<Rightarrow> Some err
      | None \<Rightarrow> update_fields c d u docId dat fs)"

definition beforeUpdate :: "config \<Rightarrow> models \<Rightarrow> db \<Rightarrow> uid \<Rightarrow> params \<Rightarrow> error option" where
  "beforeUpdate c ms d u p =
     (case map_of ms u of
        None \<Rightarrow> None
      | Some uuidFields \<Rightarrow>
          let docId = getDocumentIdFromWhere d u (where_c p) in
          if \<not> truthy docId then None
          else update_fields c d u docId (data p) uuidFields)"

text \<open>
  Modelled from the spec: the write itself is the framework's. The hook runs before it; a
  hook that throws aborts the write. A created row carries the payload the hook left, under
  the \<^verbatim>\<open>documentId\<close> of the payload when it has one and a newly assigned one
  otherwise. An update writes the properties present in the payload to the rows the
  \<^verbatim>\<open>where\<close> clause selects.
\<close>

definition merge_obj :: "obj \<Rightarrow> obj \<Rightarrow> obj" where
  "merge_obj a dat = (\<lambda>k. if dat k = Undefined then a k else dat k)"

definition create ::
  "config \<Rightarrow> env \<Rightarrow> models \<Rightarrow> uid \<Rightarrow> params \<Rightarrow> nat \<Rightarrow> docId \<Rightarrow> state \<Rightarrow> (error + row) \<times> state" where
  "create c e ms u p newId newDocumentId s =
     (case beforeCreate c e ms u p s of
        (Inl err, s') \<Rightarrow> (Inl err, s')
      | (Inr dat, s') \<Rightarrow>
          let r = \<lparr> row_id = newId,
                    documentId = (case dat ''documentId'' of
                                    Str x \<Rightarrow> if x \<noteq> [] then x else newDocumentId
                                  | _ \<Rightarrow> newDocumentId),
                    attrs = dat \<rparr>
          in (Inr r, s'\<lparr>store := (store s')(u := store s' u @ [r])\<rparr>))"

definition selected :: "where_clause option \<Rightarrow> row \<Rightarrow> bool" where
  "selected w r =
     (case w of
        None \<Rightarrow> True
      | Some wh \<Rightarrow>
          (case where_documentId wh of Str x \<Rightarrow> documentId r = x | _ \<Rightarrow> True)
          \<and> (case where_id wh of Some i \<Rightarrow> row_id r = i | None \<Rightarrow> True))"

definition update_record :: "config \<Rightarrow> models \<Rightarrow> uid \<Rightarrow> params \<Rightarrow> state \<Rightarrow> error + state" where
  "update_record c ms u p s =
     (case beforeUpdate c ms (store s) u p of
        Some err \<Rightarrow> Inl err
      | None \<Rightarrow>
          Inr (s\<lparr>store := (store s)(u :=
                 map (\<lambda>r. if selected (where_c p) r then r\<lparr>attrs := merge_obj (attrs r) (data p)\<rparr> else r)
                   (store s u))\<rparr>))"

section \<open>The service: diagnosis and repair of duplicates\<close>

record attribute =
  customField :: "string option"
  attr_type :: string
  uuid_prefix :: "string option"

text \<open>
  \<^verbatim>\<open>strapi.contentTypes\<close> and the \<^verbatim>\<open>attributes\<close> of a content type are objects; they
  are given by their entries in the order \<^verbatim>\<open>Object.keys\<close> lists them. An attribute
  carries the options that the admin panel registers for the custom field, among them
  \<^verbatim>\<open>options.uuid-prefix\<close> (admin/src/index.js).
\<close>

type_synonym contentTypes = "(uid \<times> (field \<times> attribute) list) list"

definition is_uuid_attribute :: "attribute \<Rightarrow> bool" where
  "is_uuid_attribute a = (customField a = Some ''plugin::field-uuid.uuid'')"

definition startsWith :: "string \<Rightarrow> string \<Rightarrow> bool" where
  "startsWith s p = (take (length p) s = p)"

definition getUuidModels :: "contentTypes \<Rightarrow> models" where
  "getUuidModels cts =
     filter (\<lambda>(key, uuidAttributes). uuidAttributes \<noteq> [])
       (map (\<lambda>(key, as). (key, map fst (filter (\<lambda>(attrKey, a). is_uuid_attribute a) as)))
          (filter (\<lambda>(key, as). startsWith key ''api'') cts))"

text \<open>
  \<^verbatim>\<open>uuidGroups\<close> is a plain object: its own properties in the order of their creation.
  Reading a name that \<^verbatim>\<open>Object.prototype\<close> defines finds the inherited property, which is
  truthy and has no \<^verbatim>\<open>push\<close>: the call throws a TypeError.
\<close>

definition proto_keys :: "string list" where
  "proto_keys =
     [''constructor'', ''__defineGetter__'', ''__defineSetter__'', ''hasOwnProperty'',
      ''__lookupGetter__'', ''__lookupSetter__'', ''isPrototypeOf'', ''propertyIsEnumerable'',
      ''toString'', ''valueOf'', ''__proto__'', ''toLocaleString'']"

definition push_group :: "(string \<times> docId list) list \<Rightarrow> string \<Rightarrow> docId \<Rightarrow> (string \<times> docId list) list" where
  "push_group g v x =
     (if map_of g v = None then g @ [(v, [x])]
      else map (\<lambda>(k, ds). if k = v then (k, ds @ [x]) else (k, ds)) g)"

fun group_entries ::
  "field \<Rightarrow> row list \<Rightarrow> (string \<times> docId list) list \<Rightarrow> error + (string \<times> docId list) list" where
  "group_entries f [] g = Inr g"
| "group_entries f (entry # entries) g =
     (let uuidValue = attrs entry f in
      if \<not> truthy uuidValue then group_entries f entries g
      else (case uuidValue of
              Str v \<Rightarrow>
                if v \<in> set proto_keys then Inl TypeError
                else group_entries f entries (push_group g v (documentId entry))
            | _ \<Rightarrow> group_entries f entries g))"

text \<open>
  \<^verbatim>\<open>Object.entries\<close> lists the array indices first (the canonical numerals below
  \<open>2^32 - 1\<close>), in ascending order, then the other names in the order of their creation.
\<close>

definition digit_value :: "char \<Rightarrow> nat" where
  "digit_value ch = of_char ch - 48"

definition numeral_value :: "string \<Rightarrow> nat" where
  "numeral_value s = foldl (\<lambda>a ch. 10 * a + digit_value ch) 0 s"

definition is_array_index :: "string \<Rightarrow> bool" where
  "is_array_index s =
     (s \<noteq> [] \<and> list_all (\<lambda>ch. ch \<in> set ''0123456789'') s
      \<and> (s = ''0'' \<or> take 1 s \<noteq> ''0'') \<and> numeral_value s < 2 ^ 32 - 1)"

definition object_entries :: "(string \<times> 'a) list \<Rightarrow> (string \<times> 'a) list" where
  "object_entries g =
     sort_key (\<lambda>kv. numeral_value (fst kv)) (filter (\<lambda>kv. is_array_index (fst kv)) g)
       @ filter (\<lambda>kv. \<not> is_array_index (fst kv)) g"

record dup_group =
  uuid :: string
  count :: nat
  documentIds :: "docId list"

definition findDuplicatesForField :: "db \<Rightarrow> uid \<Rightarrow> field \<Rightarrow> error + dup_group list" where
  "findDuplicatesForField d u f =
     (case group_entries f (findMany d u) [] of
        Inl err \<Rightarrow> Inl err
      | Inr uuidGroups \<Rightarrow>
          Inr (map (\<lambda>(v, ds). \<lparr>uuid = v, count = length ds, documentIds = ds\<rparr>)
                 (filter (\<lambda>(v, ds). length ds > 1) (object_entries uuidGroups))))"

record change =
  ch_documentId :: docId
  oldUuid :: string
  newUuid :: string
  kept :: docId


text \<open>The services call \<^verbatim>\<open>uuidv4()\<close> of the library directly.\<close>

definition draw_v4 :: "env \<Rightarrow> state \<Rightarrow> string \<times> state" where
  "draw_v4 e s = (uuidv4 e (drawn s), s\<lparr>drawn := Suc (drawn s)\<rparr>)"








section \<open>The migration service\<close>

definition str_of :: "jsval \<Rightarrow> string" where
  "str_of v = (case v of Str x \<Rightarrow> x | _ \<Rightarrow> [])"

datatype issue =
    InvalidIssue docId string
  | DuplicateIssue string nat "docId list"

record fieldInfo =
  fi_uid :: uid
  fi_field :: field
  currentType :: string
  issues :: "issue list"
  entryCount :: nat
  emptyCount :: nat
  invalidCount :: nat
  duplicateCount :: nat

record status_report =
  needsMigration :: bool
  contentTypes :: "fieldInfo list"
  totalFields :: nat
  totalEntries :: nat

text \<open>
  The scan of \<^verbatim>\<open>checkMigrationStatus\<close> over the entries of one field: the count of
  empty values, the count of invalid ones, the issues pushed so far, and the
  \<^verbatim>\<open>Map\<close> from each value to the \<^verbatim>\<open>documentId\<close>s that hold it (a
  \<^verbatim>\<open>Map\<close> keeps the order of insertion).
\<close>

fun scan_entries ::
  "field \<Rightarrow> row list \<Rightarrow> nat \<Rightarrow> nat \<Rightarrow> issue list \<Rightarrow> (string \<times> docId list) list
     \<Rightarrow> nat \<times> nat \<times> issue list \<times> (string \<times> docId list) list" where
  "scan_entries f [] ec ic iss dm = (ec, ic, iss, dm)"
| "scan_entries f (entry # entries) ec ic iss dm =
     (let uuidValue = attrs entry f in
      if \<not> truthy uuidValue then scan_entries f entries (Suc ec) ic iss dm
      else if \<not> validateUuid uuidValue then
        scan_entries f entries ec (Suc ic)
          (iss @ [InvalidIssue (documentId entry) (str_of uuidValue)])
          (push_group dm (str_of uuidValue) (documentId entry))
      else scan_entries f entries ec ic iss (push_group dm (str_of uuidValue) (documentId entry)))"

definition duplicate_issues :: "(string \<times> docId list) list \<Rightarrow> issue list" where
  "duplicate_issues dm =
     map (\<lambda>(v, docIds). DuplicateIssue v (length docIds) docIds)
       (filter (\<lambda>(v, docIds). length docIds > 1) dm)"

definition check_field :: "db \<Rightarrow> uid \<Rightarrow> field \<Rightarrow> attribute \<Rightarrow> fieldInfo" where
  "check_field d u attrName a =
     (let entries = findMany d u in
      case scan_entries attrName entries 0 0 [] [] of
        (ec, ic, iss, dm) \<Rightarrow>
          \<lparr> fi_uid = u, fi_field = attrName, currentType = attr_type a,
            issues = iss @ duplicate_issues dm,
            entryCount = length entries,
            emptyCount = ec,
            invalidCount = ic,
            duplicateCount =
              sum_list (map (\<lambda>(v, docIds). length docIds - 1)
                          (filter (\<lambda>(v, docIds). length docIds > 1) dm)) \<rparr>)"

definition checkMigrationStatus :: "contentTypes \<Rightarrow> db \<Rightarrow> status_report" where
  "checkMigrationStatus cts d =
     (let infos =
            concat (map (\<lambda>(u, as).
                           map (\<lambda>(attrName, a). check_field d u attrName a)
                             (filter (\<lambda>(attrName, a). is_uuid_attribute a) as))
                      (filter (\<lambda>(u, as). startsWith u ''api::'') cts))
      in \<lparr> needsMigration =
              list_ex (\<lambda>fi. emptyCount fi > 0 \<or> invalidCount fi > 0 \<or> duplicateCount fi > 0) infos,
            contentTypes = infos,
            totalFields = length infos,
            totalEntries = sum_list (map entryCount infos) \<rparr>)"

record options =
  opt_dryRun :: bool
  fixEmpty :: bool
  fixInvalid :: bool
  fixDuplicates :: bool

definition default_options :: options where
  "default_options = \<lparr>opt_dryRun = True, fixEmpty = True, fixInvalid = True, fixDuplicates = True\<rparr>"

datatype change_type = empty_fix | invalid_fix | duplicate_fix

record mig_change =
  m_type :: change_type
  m_uid :: uid
  m_field :: field
  m_documentId :: docId
  oldValue :: jsval
  newValue :: string
  keptDocumentId :: "docId option"

datatype mig_error =
    FailedEmpty uid field
  | FailedInvalid uid field docId
  | FailedDuplicate uid field docId

text \<open>The result of \<^verbatim>\<open>runMigration\<close>, without its two time stamps.\<close>

record result =
  r_dryRun :: bool
  fixed_empty :: nat
  fixed_invalid :: nat
  fixed_duplicates :: nat
  errors :: "mig_error list"
  r_changes :: "mig_change list"
  r_totalFixed :: nat

text \<open>
  The loop over the empty entries stands inside one \<^verbatim>\<open>try\<close>: a write that throws
  ends the loop, and the \<^verbatim>\<open>catch\<close> pushes one error for the field.
\<close>

fun fix_empty_entries ::
  "env \<Rightarrow> uid \<Rightarrow> field \<Rightarrow> bool \<Rightarrow> row list \<Rightarrow> result \<Rightarrow> state \<Rightarrow> result \<times> state" where
  "fix_empty_entries e u f dry [] res s = (res, s)"
| "fix_empty_entries e u f dry (entry # entries) res s =
     (let (new, s1) = draw_v4 e s;
          res1 = res\<lparr>r_changes := r_changes res @
                   [\<lparr>m_type = empty_fix, m_uid = u, m_field = f, m_documentId = documentId entry,
                     oldValue = Null, newValue = new, keptDocumentId = None\<rparr>]\<rparr>
      in if \<not> dry then
           (case update e s1 u (documentId entry) f new of
              Inl err \<Rightarrow> (res1\<lparr>errors := errors res1 @ [FailedEmpty u f]\<rparr>, s1)
            | Inr s2 \<Rightarrow> fix_empty_entries e u f dry entries (res1\<lparr>fixed_empty := Suc (fixed_empty res1)\<rparr>) s2)
         else fix_empty_entries e u f dry entries (res1\<lparr>fixed_empty := Suc (fixed_empty res1)\<rparr>) s1)"

text \<open>The invalid and the duplicate fixes catch the error of each write on its own.\<close>

fun fix_invalid_issues ::
  "env \<Rightarrow> uid \<Rightarrow> field \<Rightarrow> bool \<Rightarrow> issue list \<Rightarrow> result \<Rightarrow> state \<Rightarrow> result \<times> state" where
  "fix_invalid_issues e u f dry [] res s = (res, s)"
| "fix_invalid_issues e u f dry (DuplicateIssue v n ds # is) res s = fix_invalid_issues e u f dry is res s"
| "fix_invalid_issues e u f dry (InvalidIssue x v # is) res s =
     (let (new, s1) = draw_v4 e s;
          res1 = res\<lparr>r_changes := r_changes res @
                   [\<lparr>m_type = invalid_fix, m_uid = u, m_field = f, m_documentId = x,
                     oldValue = Str v, newValue = new, keptDocumentId = None\<rparr>]\<rparr>
      in if \<not> dry then
           (case update e s1 u x f new of
              Inl err \<Rightarrow>
                fix_invalid_issues e u f dry is (res1\<lparr>errors := errors res1 @ [FailedInvalid u f x]\<rparr>) s1
            | Inr s2 \<Rightarrow>
                fix_invalid_issues e u f dry is (res1\<lparr>fixed_invalid := Suc (fixed_invalid res1)\<rparr>) s2)
         else fix_invalid_issues e u f dry is (res1\<lparr>fixed_invalid := Suc (fixed_invalid res1)\<rparr>) s1)"

fun fix_dup_members ::
  "env \<Rightarrow> uid \<Rightarrow> field \<Rightarrow> bool \<Rightarrow> string \<Rightarrow> docId \<Rightarrow> docId list \<Rightarrow> result \<Rightarrow> state \<Rightarrow> result \<times> state" where
  "fix_dup_members e u f dry old keepDocId [] res s = (res, s)"
| "fix_dup_members e u f dry old keepDocId (x # xs) res s =
     (let (new, s1) = draw_v4 e s;
          res1 = res\<lparr>r_changes := r_changes res @
                   [\<lparr>m_type = duplicate_fix, m_uid = u, m_field = f, m_documentId = x,
                     oldValue = Str old, newValue = new, keptDocumentId = Some keepDocId\<rparr>]\<rparr>
      in if \<not> dry then
           (case update e s1 u x f new of
              Inl err \<Rightarrow>
                fix_dup_members e u f dry old keepDocId xs
                  (res1\<lparr>errors := errors res1 @ [FailedDuplicate u f x]\<rparr>) s1
            | Inr s2 \<Rightarrow>
                fix_dup_members e u f dry old keepDocId xs
                  (res1\<lparr>fixed_duplicates := Suc (fixed_duplicates res1)\<rparr>) s2)
         else fix_dup_members e u f dry old keepDocId xs
                (res1\<lparr>fixed_duplicates := Suc (fixed_duplicates res1)\<rparr>) s1)"

fun fix_dup_issues ::
  "env \<Rightarrow> uid \<Rightarrow> field \<Rightarrow> bool \<Rightarrow> issue list \<Rightarrow> result \<Rightarrow> state \<Rightarrow> result \<times> state" where
  "fix_dup_issues e u f dry [] res s = (res, s)"
| "fix_dup_issues e u f dry (InvalidIssue x v # is) res s = fix_dup_issues e u f dry is res s"
| "fix_dup_issues e u f dry (DuplicateIssue v n [] # is) res s = fix_dup_issues e u f dry is res s"
| "fix_dup_issues e u f dry (DuplicateIssue v n (keepDocId # fixDocIds) # is) res s =
     (case fix_dup_members e u f dry v keepDocId fixDocIds res s of
        (res', s') \<Rightarrow> fix_dup_issues e u f dry is res' s')"

fun is_invalid :: "issue \<Rightarrow> bool" where
  "is_invalid (InvalidIssue x v) = True"
| "is_invalid _ = False"

fun is_duplicate :: "issue \<Rightarrow> bool" where
  "is_duplicate (DuplicateIssue v n ds) = True"
| "is_duplicate _ = False"

text \<open>The body of the loop of \<^verbatim>\<open>runMigration\<close> over \<^verbatim>\<open>status.contentTypes\<close>.\<close>

definition migrate_field :: "env \<Rightarrow> options \<Rightarrow> fieldInfo \<Rightarrow> result \<Rightarrow> state \<Rightarrow> result \<times> state" where
  "migrate_field e opts ctInfo res s =
     (let u = fi_uid ctInfo; f = fi_field ctInfo; dry = opt_dryRun opts;
          (res1, s1) =
            (if fixEmpty opts \<and> emptyCount ctInfo > 0
             then fix_empty_entries e u f dry (findMany_empty (store s) u f) res s
             else (res, s));
          (res2, s2) =
            (if fixInvalid opts
             then fix_invalid_issues e u f dry (filter is_invalid (issues ctInfo)) res1 s1
             else (res1, s1))
      in if fixDuplicates opts
         then fix_dup_issues e u f dry (filter is_duplicate (issues ctInfo)) res2 s2
         else (res2, s2))"

fun migrate_fields :: "env \<Rightarrow> options \<Rightarrow> fieldInfo list \<Rightarrow> result \<Rightarrow> state \<Rightarrow> result \<times> state" where
  "migrate_fields e opts [] res s = (res, s)"
| "migrate_fields e opts (ctInfo # rest) res s =
     (case migrate_field e opts ctInfo res s of
        (res', s') \<Rightarrow> migrate_fields e opts rest res' s')"

definition runMigration :: "env \<Rightarrow> contentTypes \<Rightarrow> options \<Rightarrow> state \<Rightarrow> result \<times> state" where
  "runMigration e cts opts s =
     (let status = checkMigrationStatus cts (store s) in
      case migrate_fields e opts (contentTypes status)
             \<lparr> r_dryRun = opt_dryRun opts, fixed_empty = 0, fixed_invalid = 0,
               fixed_duplicates = 0, errors = [], r_changes = [], r_totalFixed = 0 \<rparr> s of
        (res, s') \<Rightarrow>
          (res\<lparr>r_totalFixed := fixed_empty res + fixed_invalid res + fixed_duplicates res\<rparr>, s'))"

subsection \<open>Import of a snapshot\<close>










section \<open>Specification vocabulary and sample inputs\<close>

text \<open>The value that the \<open>n\<close>-th call of the library returns for a version.\<close>

definition nth_uuid :: "env \<Rightarrow> string \<Rightarrow> nat \<Rightarrow> string" where
  "nth_uuid e version n = (if version = ''v7'' then uuidv7 e n else uuidv4 e n)"



definition uuid_a :: string where
  "uuid_a = ''550e8400-e29b-41d4-a716-446655440000''"

definition uuid_b :: string where
  "uuid_b = ''018f6b3c-8e2d-7f00-8000-000000000000''"

definition uuid_c :: string where
  "uuid_c = ''6ba7b810-9dad-41d1-80b4-00c04fd430c8''"

definition article :: uid where
  "article = ''api::article.article''"

definition no_attrs :: obj where
  "no_attrs = (\<lambda>k. Undefined)"

definition mk_row :: "nat \<Rightarrow> docId \<Rightarrow> jsval \<Rightarrow> row" where
  "mk_row i x v = \<lparr>row_id = i, documentId = x, attrs = no_attrs(''uid'' := v)\<rparr>"

definition one_type :: "row list \<Rightarrow> db" where
  "one_type rows = (\<lambda>u. if u = article then rows else [])"

definition default_config :: config where
  "default_config =
     mk_config \<lparr>cfg_defaultVersion = None, cfg_autoGenerate = None,
                cfg_validateUniqueness = None, cfg_maxRetryAttempts = None\<rparr>"


definition sample_models :: models where
  "sample_models = [(article, [''uid''])]"

definition sample_types :: contentTypes where
  "sample_types =
     [(article, [(''title'', \<lparr>customField = None, attr_type = ''string'', uuid_prefix = None\<rparr>),
                 (''uid'', \<lparr>customField = Some ''plugin::field-uuid.uuid'', attr_type = ''string'',
                            uuid_prefix = None\<rparr>)])]"

text \<open>The same content type, its field configured with the prefix \<^verbatim>\<open>usr_\<close>.\<close>

definition prefixed_types :: contentTypes where
  "prefixed_types =
     [(article, [(''uid'', \<lparr>customField = Some ''plugin::field-uuid.uuid'', attr_type = ''string'',
                            uuid_prefix = Some ''usr_''\<rparr>)])]"

text \<open>A library that returns the listed values in turn, then \<open>uuid_c\<close>; every write succeeds.\<close>

definition lib_of :: "string list \<Rightarrow> env" where
  "lib_of vs =
     \<lparr> uuidv4 = (\<lambda>n. if n < length vs then vs ! n else uuid_c),
       lib_v7 = None,
       update_throws = (\<lambda>u rows x f v. False) \<rparr>"

text \<open>The same library, with the writes to one \<^verbatim>\<open>documentId\<close> throwing.\<close>

definition failing_on :: "docId \<Rightarrow> string list \<Rightarrow> env" where
  "failing_on d vs = (lib_of vs)\<lparr>update_throws := (\<lambda>u rows x f v. x = d)\<rparr>"

text \<open>A store where the value the sample library returns first is taken.\<close>

definition taken :: state where
  "taken = \<lparr>store = one_type [mk_row 1 ''d1'' (Str uuid_a)], drawn = 0\<rparr>"

definition legacy :: state where
  "legacy = \<lparr>store = one_type [mk_row 1 ''d1'' (Str ''abc'')], drawn = 0\<rparr>"

definition republish :: "string \<Rightarrow> params" where
  "republish v =
     \<lparr>data = no_attrs(''documentId'' := Str ''d1'', ''uid'' := Str v), where_c = None\<rparr>"

text \<open>A write that carries the Record Identity \<open>x\<close> and supplies the value \<open>v\<close>.\<close>

definition copy_as :: "docId \<Rightarrow> string \<Rightarrow> params" where
  "copy_as x v =
     \<lparr>data = no_attrs(''documentId'' := Str x, ''uid'' := Str v), where_c = None\<rparr>"

text \<open>The default configuration with uniqueness checking disabled.\<close>

definition unchecked_config :: config where
  "unchecked_config =
     mk_config \<lparr>cfg_defaultVersion = None, cfg_autoGenerate = None,
                cfg_validateUniqueness = Some False, cfg_maxRetryAttempts = None\<rparr>"

definition two_docs :: db where
  "two_docs = one_type [mk_row 1 ''d1'' (Str uuid_a), mk_row 2 ''d2'' (Str uuid_b)]"

definition edit_d2 :: "jsval \<Rightarrow> params" where
  "edit_d2 v =
     \<lparr>data = no_attrs(''uid'' := v),
      where_c = Some \<lparr>where_documentId = Str ''d2'', where_id = None\<rparr>\<rparr>"

definition both :: state where
  "both = \<lparr>store = two_docs, drawn = 0\<rparr>"

text \<open>
  The grouping both scans perform, as one step per entry, and the \<^verbatim>\<open>documentId\<close>s of
  the rows that hold a value, in scan order.
\<close>

definition group_step :: "field \<Rightarrow> (string \<times> docId list) list \<Rightarrow> row \<Rightarrow> (string \<times> docId list) list" where
  "group_step f g r =
     (if truthy (attrs r f) then push_group g (str_of (attrs r f)) (documentId r) else g)"

definition holders :: "field \<Rightarrow> string \<Rightarrow> row list \<Rightarrow> docId list" where
  "holders f v rows = map documentId (filter (\<lambda>r. attrs r f = Str v) rows)"

definition grouped :: "field \<Rightarrow> row list \<Rightarrow> (string \<times> docId list) list \<Rightarrow> bool" where
  "grouped f rows g =
     (distinct (map fst g)
      \<and> (\<forall>kd\<in>set g. fst kd \<noteq> [] \<and> snd kd \<noteq> [] \<and> snd kd = holders f (fst kd) rows)
      \<and> (\<forall>r\<in>set rows. truthy (attrs r f) \<longrightarrow> str_of (attrs r f) \<in> fst ` set g))"


definition two_empty :: state where
  "two_empty = \<lparr>store = one_type [mk_row 1 ''d1'' Null, mk_row 2 ''d2'' Null], drawn = 0\<rparr>"

definition two_invalid :: state where
  "two_invalid = \<lparr>store = one_type [mk_row 1 ''d1'' (Str ''x''), mk_row 2 ''d2'' (Str ''y'')], drawn = 0\<rparr>"

definition live :: options where
  "live = default_options\<lparr>opt_dryRun := False\<rparr>"


definition two_docs_same :: db where
  "two_docs_same = one_type [mk_row 1 ''d1'' (Str uuid_a), mk_row 2 ''d2'' (Str uuid_a)]"

text \<open>
  A write of the document service, the store after a list of writes, and an environment
  where no write throws.
\<close>

type_synonym db_write = "uid \<times> field \<times> docId \<times> string"

definition apply_write :: "db \<Rightarrow> db_write \<Rightarrow> db" where
  "apply_write d w = (case w of (u, f, x, v) \<Rightarrow> d(u := map (write_field x f v) (d u)))"

definition replay :: "db \<Rightarrow> db_write list \<Rightarrow> db" where
  "replay d ws = foldl apply_write d ws"


text \<open>The state after \<open>k\<close> calls of the generator and, in a live run, the writes \<open>ws\<close>.\<close>

definition state_after :: "bool \<Rightarrow> nat \<Rightarrow> db_write list \<Rightarrow> state \<Rightarrow> state" where
  "state_after dry k ws s =
     s\<lparr>drawn := drawn s + k, store := (if dry then store s else replay (store s) ws)\<rparr>"

text \<open>
  Numbering: the \<open>i\<close>-th target of a repair takes the value of the \<open>i\<close>-th call of the
  generator, counted from \<open>n\<close>.
\<close>

fun number :: "(nat \<Rightarrow> 't \<Rightarrow> 'c) \<Rightarrow> nat \<Rightarrow> 't list \<Rightarrow> 'c list" where
  "number mk n [] = []"
| "number mk n (t # ts) = mk n t # number mk (Suc n) ts"

text \<open>
  The targets of the duplicate repair: every member of a group state_after the first, with the
  value of the group and the member kept.
\<close>

definition member_targets :: "string \<Rightarrow> docId \<Rightarrow> docId list \<Rightarrow> (docId \<times> string \<times> docId) list" where
  "member_targets old keep xs = map (\<lambda>x. (x, old, keep)) xs"

definition group_targets :: "dup_group list \<Rightarrow> (docId \<times> string \<times> docId) list" where
  "group_targets gs =
     concat (map (\<lambda>g. case documentIds g of
                          [] \<Rightarrow> []
                        | keep # rest \<Rightarrow> member_targets (uuid g) keep rest) gs)"

definition mk_change :: "env \<Rightarrow> nat \<Rightarrow> docId \<times> string \<times> docId \<Rightarrow> change" where
  "mk_change e i t =
     (case t of (x, old, keep) \<Rightarrow>
        \<lparr>ch_documentId = x, oldUuid = old, newUuid = uuidv4 e i, kept = keep\<rparr>)"

definition change_writes :: "uid \<Rightarrow> field \<Rightarrow> change list \<Rightarrow> db_write list" where
  "change_writes u f cs = map (\<lambda>c. (u, f, ch_documentId c, newUuid c)) cs"




text \<open>
  The targets of the migration for one field: a kind of fix, the Record Identity, the old
  value logged and, for a duplicate, the Record Identity kept.
\<close>

type_synonym target = "change_type \<times> docId \<times> jsval \<times> docId option"

definition empty_targets :: "docId list \<Rightarrow> target list" where
  "empty_targets xs = map (\<lambda>x. (empty_fix, x, Null, None)) xs"

fun invalid_targets :: "issue list \<Rightarrow> target list" where
  "invalid_targets [] = []"
| "invalid_targets (InvalidIssue x v # is) = (invalid_fix, x, Str v, None) # invalid_targets is"
| "invalid_targets (DuplicateIssue v n ds # is) = invalid_targets is"

fun dup_targets :: "issue list \<Rightarrow> target list" where
  "dup_targets [] = []"
| "dup_targets (InvalidIssue x v # is) = dup_targets is"
| "dup_targets (DuplicateIssue v n [] # is) = dup_targets is"
| "dup_targets (DuplicateIssue v n (keep # rest) # is) =
     map (\<lambda>x. (duplicate_fix, x, Str v, Some keep)) rest @ dup_targets is"

definition field_targets :: "options \<Rightarrow> db \<Rightarrow> fieldInfo \<Rightarrow> target list" where
  "field_targets opts d fi =
     (if fixEmpty opts \<and> emptyCount fi > 0
      then empty_targets (map documentId (findMany_empty d (fi_uid fi) (fi_field fi))) else [])
     @ (if fixInvalid opts then invalid_targets (filter is_invalid (issues fi)) else [])
     @ (if fixDuplicates opts then dup_targets (filter is_duplicate (issues fi)) else [])"

definition mk_mig_change :: "env \<Rightarrow> uid \<Rightarrow> field \<Rightarrow> nat \<Rightarrow> target \<Rightarrow> mig_change" where
  "mk_mig_change e u f i t =
     (case t of (ty, x, old, k) \<Rightarrow>
        \<lparr>m_type = ty, m_uid = u, m_field = f, m_documentId = x, oldValue = old,
         newValue = uuidv4 e i, keptDocumentId = k\<rparr>)"

fun fields_plan :: "env \<Rightarrow> options \<Rightarrow> db \<Rightarrow> nat \<Rightarrow> fieldInfo list \<Rightarrow> mig_change list" where
  "fields_plan e opts d n [] = []"
| "fields_plan e opts d n (fi # fis) =
     number (mk_mig_change e (fi_uid fi) (fi_field fi)) n (field_targets opts d fi)
       @ fields_plan e opts d (n + length (field_targets opts d fi)) fis"

definition count_type :: "change_type \<Rightarrow> mig_change list \<Rightarrow> nat" where
  "count_type t cs = length (filter (\<lambda>c. m_type c = t) cs)"

definition logged :: "result \<Rightarrow> mig_change list \<Rightarrow> result" where
  "logged res cs =
     res\<lparr> r_changes := r_changes res @ cs,
          fixed_empty := fixed_empty res + count_type empty_fix cs,
          fixed_invalid := fixed_invalid res + count_type invalid_fix cs,
          fixed_duplicates := fixed_duplicates res + count_type duplicate_fix cs \<rparr>"

definition mig_writes :: "mig_change list \<Rightarrow> db_write list" where
  "mig_writes cs = map (\<lambda>c. (m_uid c, m_field c, m_documentId c, newValue c)) cs"






section \<open>The bounded retry loop\<close>

lemma generateUuid_eq:
  "generateUuid e v s = (nth_uuid e v (drawn s), s\<lparr>drawn := Suc (drawn s)\<rparr>)"
  by (simp add: generateUuid_def nth_uuid_def)

lemma retry_loop_Suc:
  "retry_loop c e u f (Suc k) s =
     (if \<not> validateUniqueness c \<or>
         \<not> isUuidExists c (store s) u f (nth_uuid e (defaultVersion c) (drawn s)) Null
      then (Inr (nth_uuid e (defaultVersion c) (drawn s)), s\<lparr>drawn := Suc (drawn s)\<rparr>)
      else retry_loop c e u f k (s\<lparr>drawn := Suc (drawn s)\<rparr>))"
  by (simp add: generateUuid_eq)

lemma retry_loop_state:
  "retry_loop c e u f k s = (r, s') \<Longrightarrow>
     store s' = store s \<and> drawn s \<le> drawn s' \<and> drawn s' \<le> drawn s + k"
proof (induction k arbitrary: s)
  case 0
  then show ?case by auto
next
  case (Suc k)
  show ?case
  proof (cases "\<not> validateUniqueness c \<or>
      \<not> isUuidExists c (store s) u f (nth_uuid e (defaultVersion c) (drawn s)) Null")
    case True
    with Suc.prems have "s' = s\<lparr>drawn := Suc (drawn s)\<rparr>"
      by (simp add: retry_loop_Suc del: retry_loop.simps)
    then show ?thesis by simp
  next
    case False
    with Suc.prems have "retry_loop c e u f k (s\<lparr>drawn := Suc (drawn s)\<rparr>) = (r, s')"
      by (simp add: retry_loop_Suc del: retry_loop.simps)
    from Suc.IH[OF this] show ?thesis by simp
  qed
qed

lemma retry_loop_Inr:
  "retry_loop c e u f k s = (Inr v, s') \<Longrightarrow>
     0 < drawn s' \<and> v = nth_uuid e (defaultVersion c) (drawn s' - 1)
     \<and> \<not> isUuidExists c (store s) u f v Null"
proof (induction k arbitrary: s)
  case 0
  then show ?case by auto
next
  case (Suc k)
  show ?case
  proof (cases "\<not> validateUniqueness c \<or>
      \<not> isUuidExists c (store s) u f (nth_uuid e (defaultVersion c) (drawn s)) Null")
    case True
    with Suc.prems have "s' = s\<lparr>drawn := Suc (drawn s)\<rparr>"
      and "v = nth_uuid e (defaultVersion c) (drawn s)"
      by (simp_all add: retry_loop_Suc del: retry_loop.simps)
    with True show ?thesis
      by (auto simp: isUuidExists_def checkUuidExists_def)
  next
    case False
    with Suc.prems have "retry_loop c e u f k (s\<lparr>drawn := Suc (drawn s)\<rparr>) = (Inr v, s')"
      by (simp add: retry_loop_Suc del: retry_loop.simps)
    from Suc.IH[OF this] show ?thesis by auto
  qed
qed






section \<open>The create hook and an existing value\<close>

lemma find_Some_holds: "find P xs = Some x \<Longrightarrow> P x \<and> x \<in> set xs"
  by (induction xs) (auto split: if_splits)

lemma checkUuidExists_on:
  "validateUniqueness c \<Longrightarrow>
   checkUuidExists c d u f v Null =
     (case find (\<lambda>r. attrs r f = Str v) (d u) of
        None \<Rightarrow> \<lparr>exists = False, owner = Null\<rparr>
      | Some r \<Rightarrow> \<lparr>exists = True, owner = js_or (Str (documentId r)) Null\<rparr>)"
  by (simp add: checkUuidExists_def findFirst_value_def)

lemma isUuidExists_iff:
  "validateUniqueness c \<Longrightarrow>
   isUuidExists c d u f v Null = (\<exists>r\<in>set (d u). attrs r f = Str v)"
  by (auto simp: isUuidExists_def checkUuidExists_on find_None_iff split: option.splits
           dest: find_Some_holds)

lemma isUuidExists_exclude_iff:
  "validateUniqueness c \<Longrightarrow> truthy x \<Longrightarrow>
   isUuidExists c d u f v x = (\<exists>r\<in>set (d u). attrs r f = Str v \<and> Str (documentId r) \<noteq> x)"
  by (cases x)
     (auto simp: isUuidExists_def checkUuidExists_def findFirst_value_def find_None_iff
           split: option.splits dest: find_Some_holds)

lemma truthy_Str: "truthy v \<Longrightarrow> v = Str (str_of v)"
  by (cases v) (simp_all add: str_of_def)

lemma str_of_case: "(case v of Str x \<Rightarrow> x | _ \<Rightarrow> []) = str_of v"
  by (simp add: str_of_def)

text \<open>
  One turn of the loop of \<^verbatim>\<open>beforeCreate\<close>, for a field whose supplied value is
  non-empty and is found in the store, with the uniqueness check enabled and the value
  well-formed (or auto-generation disabled).
\<close>

lemma create_field_existing:
  assumes vu: "validateUniqueness c"
    and tv: "truthy (dat f)"
    and ok: "validateUuid (dat f) \<or> \<not> autoGenerate c"
    and ex: "findFirst_value (store s) u f (str_of (dat f)) None = Some r"
  shows "create_field c e u cur f dat s =
           (if (truthy cur \<and> Str (documentId r) = cur) \<or> (\<not> truthy cur \<and> documentId r \<noteq> [])
            then (Inr dat, s)
            else (case generateUniqueUuid c e u f s of
                    (Inl err, s') \<Rightarrow> (Inl err, s')
                  | (Inr v, s') \<Rightarrow> (Inr (dat(f := Str v)), s')))"
proof -
  have r: "checkUuidExists c (store s) u f (str_of (dat f)) Null
             = \<lparr>exists = True, owner = js_or (Str (documentId r)) Null\<rparr>"
    using vu ex by (simp add: checkUuidExists_def)
  have o: "(truthy cur \<and> js_or (Str (documentId r)) Null = cur)
             = (truthy cur \<and> Str (documentId r) = cur)"
    by (cases cur) (auto simp: js_or_def)
  have t: "truthy (js_or (Str (documentId r)) Null) = (documentId r \<noteq> [])"
    by (simp add: js_or_def)
  have cf: "create_field c e u cur f dat s =
      (if truthy cur \<and> js_or (Str (documentId r)) Null = cur then (Inr dat, s)
       else if \<not> truthy cur \<and> truthy (js_or (Str (documentId r)) Null) then (Inr dat, s)
       else (case generateUniqueUuid c e u f s of
               (Inl err, s') \<Rightarrow> (Inl err, s')
             | (Inr v, s') \<Rightarrow> (Inr (dat(f := Str v)), s')))"
    using vu tv ok by (auto simp: create_field_def Let_def str_of_case r)
  show ?thesis
    unfolding cf o t by simp
qed

lemma create_field_store:
  "create_field c e u cur f dat s = (r, s') \<Longrightarrow> store s' = store s"
  by (auto simp: create_field_def Let_def generateUniqueUuid_def
           split: if_splits prod.splits sum.splits dest: retry_loop_state)

lemma create_field_other:
  "create_field c e u cur f dat s = (Inr dat', s') \<Longrightarrow> g \<noteq> f \<Longrightarrow> dat' g = dat g"
  by (auto simp: create_field_def Let_def split: if_splits prod.splits sum.splits)

lemma create_fields_other:
  "create_fields c e u cur fs dat s = (Inr dat', s') \<Longrightarrow> g \<notin> set fs \<Longrightarrow> dat' g = dat g"
proof (induction fs arbitrary: dat s)
  case Nil
  then show ?case by simp
next
  case (Cons h fs)
  obtain r1 s1 where h: "create_field c e u cur h dat s = (r1, s1)"
    by (cases "create_field c e u cur h dat s")
  show ?case
  proof (cases r1)
    case (Inl err)
    with Cons.prems h show ?thesis by simp
  next
    case (Inr dat1)
    with Cons.prems h have "create_fields c e u cur fs dat1 s1 = (Inr dat', s')" by simp
    from Cons.IH[OF this] Cons.prems have "dat' g = dat1 g" by simp
    moreover from create_field_other[of c e u cur h dat s dat1 s1 g] h Inr Cons.prems
    have "dat1 g = dat g" by simp
    ultimately show ?thesis by simp
  qed
qed

text \<open>
  The turn of a field within the whole loop: it starts from the store of the call and from
  the supplied value of the field, and what it leaves for the field is the outcome of the
  hook.
\<close>

lemma create_fields_field:
  "distinct fs \<Longrightarrow> f \<in> set fs \<Longrightarrow> create_fields c e u cur fs dat s = (Inr dat', s') \<Longrightarrow>
     \<exists>dat1 s1 dat2 s2. dat1 f = dat f \<and> store s1 = store s
        \<and> create_field c e u cur f dat1 s1 = (Inr dat2, s2) \<and> dat' f = dat2 f"
proof (induction fs arbitrary: dat s)
  case Nil
  then show ?case by simp
next
  case (Cons h fs)
  obtain r1 s1 where h: "create_field c e u cur h dat s = (r1, s1)"
    by (cases "create_field c e u cur h dat s")
  show ?case
  proof (cases r1)
    case (Inl err)
    with Cons.prems h show ?thesis by simp
  next
    case (Inr dat1)
    with Cons.prems h have rest: "create_fields c e u cur fs dat1 s1 = (Inr dat', s')" by simp
    show ?thesis
    proof (cases "h = f")
      case True
      with Cons.prems have "f \<notin> set fs" by simp
      from create_fields_other[OF rest this] have "dat' f = dat1 f" .
      with h Inr True show ?thesis by blast
    next
      case False
      with Cons.prems have "distinct fs" "f \<in> set fs" by simp_all
      from Cons.IH[OF this rest] obtain dat2 s2 dat3 s3 where
        ih: "dat2 f = dat1 f" "store s2 = store s1"
            "create_field c e u cur f dat2 s2 = (Inr dat3, s3)" "dat' f = dat3 f"
        by blast
      from create_field_other[of c e u cur h dat s dat1 s1 f] h Inr False
      have "dat1 f = dat f" by simp
      moreover from create_field_store[OF h] have "store s1 = store s" .
      ultimately show ?thesis using ih by (metis (no_types))
    qed
  qed
qed

text \<open>
  Claim C3, as the code has it. \<^verbatim>\<open>beforeCreate\<close> on a monitored type, for a field
  whose supplied value is non-empty and is found in the store under an owner \<open>r\<close>, with
  the uniqueness check enabled and the value not regenerated by the first rule of the hook
  (it is well-formed, or auto-generation is disabled). The Record Identity of the incoming
  write is \<^verbatim>\<open>params.data.documentId || params.where.documentId\<close>. When it equals the
  owner's, or when the write carries none and the owner has one, a hook that returns leaves
  the value as supplied; on a type with this one field it returns the payload and the state
  untouched. In every other case a hook that returns leaves a value that
  \<^verbatim>\<open>generateUniqueUuid\<close> returned, which differs from the supplied one and which the
  check did not find in the store; on a type with this one field the outcome of the hook is
  the outcome of \<^verbatim>\<open>generateUniqueUuid\<close>, its error included.
\<close>

theorem beforeCreate_existing_value:
  assumes m: "map_of ms u = Some fs" and d: "distinct fs" and f: "f \<in> set fs"
    and vu: "validateUniqueness c"
    and tv: "truthy (data p f)"
    and ok: "validateUuid (data p f) \<or> \<not> autoGenerate c"
    and ex: "findFirst_value (store s) u f (str_of (data p f)) None = Some r"
    and cur: "cur = js_or (data p ''documentId'')
                      (case where_c p of None \<Rightarrow> Undefined | Some w \<Rightarrow> where_documentId w)"
  shows "((truthy cur \<and> Str (documentId r) = cur) \<or> (\<not> truthy cur \<and> documentId r \<noteq> [])
            \<longrightarrow> (\<forall>dat' s'. beforeCreate c e ms u p s = (Inr dat', s') \<longrightarrow> dat' f = data p f)
                \<and> (fs = [f] \<longrightarrow> beforeCreate c e ms u p s = (Inr (data p), s)))
       \<and> (\<not> ((truthy cur \<and> Str (documentId r) = cur) \<or> (\<not> truthy cur \<and> documentId r \<noteq> []))
            \<longrightarrow> (\<forall>dat' s'. beforeCreate c e ms u p s = (Inr dat', s') \<longrightarrow>
                     (\<exists>s1 s2 v. store s1 = store s \<and> generateUniqueUuid c e u f s1 = (Inr v, s2)
                         \<and> dat' f = Str v \<and> Str v \<noteq> data p f
                         \<and> \<not> isUuidExists c (store s) u f v Null))
                \<and> (fs = [f] \<longrightarrow> beforeCreate c e ms u p s =
                      (case generateUniqueUuid c e u f s of
                         (Inl err, s') \<Rightarrow> (Inl err, s')
                       | (Inr v, s') \<Rightarrow> (Inr ((data p)(f := Str v)), s'))))"
proof -
  let ?keep = "(truthy cur \<and> Str (documentId r) = cur) \<or> (\<not> truthy cur \<and> documentId r \<noteq> [])"
  have bc: "beforeCreate c e ms u p s = create_fields c e u cur fs (data p) s"
    by (simp add: beforeCreate_def m cur)
  have held: "isUuidExists c (store s) u f (str_of (data p f)) Null"
    using vu ex by (simp add: isUuidExists_def checkUuidExists_def)
  have turn: "\<exists>dat1 s1 dat2 s2. dat1 f = data p f \<and> store s1 = store s
        \<and> create_field c e u cur f dat1 s1 = (Inr dat2, s2) \<and> dat' f = dat2 f"
    if "beforeCreate c e ms u p s = (Inr dat', s')" for dat' s'
    using create_fields_field[OF d f, of c e u cur "data p" s dat' s'] that bc by simp
  have one: "beforeCreate c e ms u p s =
      (case create_field c e u cur f (data p) s of
         (Inl err, s') \<Rightarrow> (Inl err, s') | (Inr dat', s') \<Rightarrow> (Inr dat', s'))" if "fs = [f]"
    using that bc by (simp split: prod.splits sum.splits)
  show ?thesis
  proof (intro conjI impI allI)
    fix dat' s'
    assume k: ?keep and b: "beforeCreate c e ms u p s = (Inr dat', s')"
    from turn[OF b] obtain dat1 s1 dat2 s2 where
      t: "dat1 f = data p f" "store s1 = store s"
         "create_field c e u cur f dat1 s1 = (Inr dat2, s2)" "dat' f = dat2 f"
      by blast
    from create_field_existing[of c dat1 f s1 u r e cur] vu tv ok ex t(1,2) k
    have "create_field c e u cur f dat1 s1 = (Inr dat1, s1)" by simp
    with t show "dat' f = data p f" by simp
  next
    assume k: ?keep and o: "fs = [f]"
    from create_field_existing[of c "data p" f s u r e cur] vu tv ok ex k
    have "create_field c e u cur f (data p) s = (Inr (data p), s)" by simp
    with one[OF o] show "beforeCreate c e ms u p s = (Inr (data p), s)" by simp
  next
    fix dat' s'
    assume k: "\<not> ?keep" and b: "beforeCreate c e ms u p s = (Inr dat', s')"
    from turn[OF b] obtain dat1 s1 dat2 s2 where
      t: "dat1 f = data p f" "store s1 = store s"
         "create_field c e u cur f dat1 s1 = (Inr dat2, s2)" "dat' f = dat2 f"
      by blast
    from create_field_existing[of c dat1 f s1 u r e cur] vu tv ok ex t(1,2) k
    have cf: "create_field c e u cur f dat1 s1 =
        (case generateUniqueUuid c e u f s1 of
           (Inl err, s') \<Rightarrow> (Inl err, s') | (Inr v, s') \<Rightarrow> (Inr (dat1(f := Str v)), s'))"
      by simp
    obtain g s3 where g: "generateUniqueUuid c e u f s1 = (g, s3)"
      by (cases "generateUniqueUuid c e u f s1")
    from cf t(3) g obtain v where v: "g = Inr v" "dat2 = dat1(f := Str v)"
      by (cases g) auto
    from g v have "retry_loop c e u f (maxRetryAttempts c) s1 = (Inr v, s3)"
      by (simp add: generateUniqueUuid_def)
    from retry_loop_Inr[OF this] have "\<not> isUuidExists c (store s1) u f v Null"
      by blast
    then have nv: "\<not> isUuidExists c (store s) u f v Null"
      unfolding t(2) .
    with held have ne: "v \<noteq> str_of (data p f)" by auto
    have "Str v \<noteq> data p f"
    proof
      assume a: "Str v = data p f"
      have "str_of (data p f) = v"
        unfolding a[symmetric] by (simp add: str_of_def)
      with ne show False by simp
    qed
    with t g v nv show "\<exists>s1 s2 v. store s1 = store s \<and> generateUniqueUuid c e u f s1 = (Inr v, s2)
        \<and> dat' f = Str v \<and> Str v \<noteq> data p f \<and> \<not> isUuidExists c (store s) u f v Null"
      by auto
  next
    assume k: "\<not> ?keep" and o: "fs = [f]"
    from create_field_existing[of c "data p" f s u r e cur] vu tv ok ex k
    have "create_field c e u cur f (data p) s =
        (case generateUniqueUuid c e u f s of
           (Inl err, s') \<Rightarrow> (Inl err, s') | (Inr v, s') \<Rightarrow> (Inr ((data p)(f := Str v)), s'))"
      by simp
    with one[OF o] show "beforeCreate c e ms u p s =
        (case generateUniqueUuid c e u f s of
           (Inl err, s') \<Rightarrow> (Inl err, s') | (Inr v, s') \<Rightarrow> (Inr ((data p)(f := Str v)), s'))"
      by (simp split: prod.splits sum.splits)
  qed
qed

text \<open>
  The hook at two sample inputs: a re-insertion of document \<open>d1\<close> with its own value,
  which is kept, and a write of document \<open>d9\<close> with the value of \<open>d1\<close>, which is
  replaced by the next value of the generator.
\<close>

theorem beforeCreate_existing_value_witness:
  "beforeCreate default_config (lib_of [uuid_b]) sample_models article (republish uuid_a) taken
     = (Inr (data (republish uuid_a)), taken)
   \<and> beforeCreate default_config (lib_of [uuid_b]) sample_models article (copy_as ''d9'' uuid_a) taken
     = (Inr ((data (copy_as ''d9'' uuid_a))(''uid'' := Str uuid_b)), taken\<lparr>drawn := Suc (drawn taken)\<rparr>)"
proof -
  let ?c = default_config and ?e = "lib_of [uuid_b]" and ?r = "mk_row 1 ''d1'' (Str uuid_a)"
  have m: "map_of sample_models article = Some [''uid'']"
    by (simp add: sample_models_def)
  have d: "distinct [''uid'']" and f: "''uid'' \<in> set [''uid'']"
    by simp_all
  have vu: "validateUniqueness ?c"
    by (simp add: default_config_def mk_config_def)
  have va: "validateUuid (Str uuid_a)"
    by code_simp
  have ne: "uuid_a \<noteq> []"
    by (simp add: uuid_a_def)
  have ex: "findFirst_value (store taken) article ''uid'' uuid_a None = Some ?r"
    by (simp add: findFirst_value_def taken_def one_type_def mk_row_def)
  have m3: "maxRetryAttempts ?c = Suc 2"
    by (simp add: default_config_def mk_config_def)
  have nb: "\<not> isUuidExists ?c (store taken) article ''uid''
               (nth_uuid ?e (defaultVersion ?c) (drawn taken)) Null"
    by code_simp
  have nth: "nth_uuid ?e (defaultVersion ?c) (drawn taken) = uuid_b"
    by code_simp
  have g: "generateUniqueUuid ?c ?e article ''uid'' taken
             = (Inr uuid_b, taken\<lparr>drawn := Suc (drawn taken)\<rparr>)"
    unfolding generateUniqueUuid_def m3 retry_loop_Suc using nb nth by simp
  have p1: "data (republish uuid_a) ''uid'' = Str uuid_a"
      "Str ''d1'' = js_or (data (republish uuid_a) ''documentId'')
                      (case where_c (republish uuid_a) of None \<Rightarrow> Undefined | Some w \<Rightarrow> where_documentId w)"
    by (simp_all add: republish_def js_or_def)
  have p2: "data (copy_as ''d9'' uuid_a) ''uid'' = Str uuid_a"
      "Str ''d9'' = js_or (data (copy_as ''d9'' uuid_a) ''documentId'')
                      (case where_c (copy_as ''d9'' uuid_a) of None \<Rightarrow> Undefined | Some w \<Rightarrow> where_documentId w)"
    by (simp_all add: copy_as_def js_or_def)
  have s1: "str_of (data (republish uuid_a) ''uid'') = uuid_a"
    and s2: "str_of (data (copy_as ''d9'' uuid_a) ''uid'') = uuid_a"
    by (simp_all add: p1 p2 str_of_def)
  have t1: "truthy (data (republish uuid_a) ''uid'')"
    and t2: "truthy (data (copy_as ''d9'' uuid_a) ''uid'')"
    by (simp_all add: p1 p2 ne)
  have o1: "validateUuid (data (republish uuid_a) ''uid'') \<or> \<not> autoGenerate ?c"
    and o2: "validateUuid (data (copy_as ''d9'' uuid_a) ''uid'') \<or> \<not> autoGenerate ?c"
    by (simp_all add: p1 p2 va)
  have e1: "findFirst_value (store taken) article ''uid'' (str_of (data (republish uuid_a) ''uid'')) None = Some ?r"
    and e2: "findFirst_value (store taken) article ''uid'' (str_of (data (copy_as ''d9'' uuid_a) ''uid'')) None = Some ?r"
    by (simp_all add: s1 s2 ex)
  have k1: "(truthy (Str ''d1'') \<and> Str (documentId ?r) = Str ''d1'')
              \<or> (\<not> truthy (Str ''d1'') \<and> documentId ?r \<noteq> [])"
    by (simp add: mk_row_def)
  have k2: "\<not> ((truthy (Str ''d9'') \<and> Str (documentId ?r) = Str ''d9'')
              \<or> (\<not> truthy (Str ''d9'') \<and> documentId ?r \<noteq> []))"
    by (simp add: mk_row_def)
  note a = beforeCreate_existing_value[where e = ?e, OF m d f vu t1 o1 e1 p1(2),
      THEN conjunct1, THEN mp, OF k1, THEN conjunct2, THEN mp, OF refl]
  note b = beforeCreate_existing_value[where e = ?e, OF m d f vu t2 o2 e2 p2(2),
      THEN conjunct2, THEN mp, OF k2, THEN conjunct2, THEN mp, OF refl]
  from b have b': "beforeCreate ?c ?e sample_models article (copy_as ''d9'' uuid_a) taken
     = (Inr ((data (copy_as ''d9'' uuid_a))(''uid'' := Str uuid_b)), taken\<lparr>drawn := Suc (drawn taken)\<rparr>)"
    unfolding g by simp
  from a b' show ?thesis by (rule conjI)
qed

text \<open>
  Claim C3 as stated fails when uniqueness checking is disabled: the hook then never
  consults the store. A write of document \<open>d9\<close> that supplies the value document
  \<open>d1\<close> holds keeps that value, although the owner is another Record Identity.
\<close>

theorem beforeCreate_existing_value_counterexample:
  "\<not> validateUniqueness unchecked_config
   \<and> map (\<lambda>r. (documentId r, attrs r ''uid'')) (findMany (store taken) article) = [(''d1'', Str uuid_a)]
   \<and> data (copy_as ''d9'' uuid_a) ''documentId'' = Str ''d9''
   \<and> data (copy_as ''d9'' uuid_a) ''uid'' = Str uuid_a
   \<and> (case beforeCreate unchecked_config (lib_of [uuid_b]) sample_models article
              (copy_as ''d9'' uuid_a) taken of
         (Inr dat, s') \<Rightarrow> dat ''uid'' = Str uuid_a \<and> drawn s' = drawn taken
       | (Inl err, s') \<Rightarrow> False)"
  by code_simp

section \<open>The update hook\<close>

lemma update_field_kind:
  "update_field c d u x dat f = Some err \<Longrightarrow> \<exists>g v. err = ValidationError g v"
  by (auto simp: update_field_def Let_def split: if_splits)

lemma update_fields_kind:
  "update_fields c d u x dat fs = Some err \<Longrightarrow> \<exists>g v. err = ValidationError g v"
  by (induction fs) (auto split: option.splits dest: update_field_kind)

lemma update_fields_reject:
  "f \<in> set fs \<Longrightarrow> update_field c d u x dat f \<noteq> None \<Longrightarrow>
     update_fields c d u x dat fs \<noteq> None"
  by (induction fs) (auto split: option.splits)

lemma beforeUpdate_reject:
  assumes m: "map_of ms u = Some fs" and f: "f \<in> set fs"
    and x: "truthy (getDocumentIdFromWhere d u (where_c p))"
    and r: "update_field c d u (getDocumentIdFromWhere d u (where_c p)) (data p) f \<noteq> None"
  shows "\<exists>g v. beforeUpdate c ms d u p = Some (ValidationError g v)"
proof -
  from update_fields_reject[OF f r] obtain err where
    e: "update_fields c d u (getDocumentIdFromWhere d u (where_c p)) (data p) fs = Some err"
    by auto
  from update_fields_kind[OF e] obtain g v where "err = ValidationError g v" by auto
  with e m x show ?thesis by (simp add: beforeUpdate_def)
qed

lemma update_record_untouched:
  assumes "data p f = Undefined" and "update_record c ms u p s = Inr s'"
  shows "map (\<lambda>r. attrs r f) (store s' u) = map (\<lambda>r. attrs r f) (store s u)"
proof -
  from assms(2) have "store s' u =
      map (\<lambda>r. if selected (where_c p) r then r\<lparr>attrs := merge_obj (attrs r) (data p)\<rparr> else r)
        (store s u)"
    by (auto simp: update_record_def split: option.splits)
  with assms(1) show ?thesis
    by (simp add: merge_obj_def comp_def)
qed

text \<open>
  Claim C4, as the code has it. When the Record Identity of the updated record can be
  resolved from the \<^verbatim>\<open>where\<close> clause, then for every monitored field: a non-empty
  new value that fails the format check makes the hook throw a validation error, and so
  does a non-empty new value that a row of a different Record Identity holds when the
  uniqueness check is enabled; the update is then rejected. For a field that the payload
  does not contain the hook raises nothing, and an update that goes through leaves the
  stored values of that field as they were.
\<close>

theorem beforeUpdate_rejects:
  assumes m: "map_of ms u = Some fs" and f: "f \<in> set fs"
    and x: "truthy (getDocumentIdFromWhere (store s) u (where_c p))"
  shows "(truthy (data p f) \<and> \<not> validateUuid (data p f)
            \<longrightarrow> (\<exists>g v. beforeUpdate c ms (store s) u p = Some (ValidationError g v))
                \<and> (\<exists>g v. update_record c ms u p s = Inl (ValidationError g v)))
       \<and> (truthy (data p f) \<and> validateUniqueness c
          \<and> (\<exists>r\<in>set (store s u). attrs r f = data p f
                \<and> Str (documentId r) \<noteq> getDocumentIdFromWhere (store s) u (where_c p))
            \<longrightarrow> (\<exists>g v. beforeUpdate c ms (store s) u p = Some (ValidationError g v))
                \<and> (\<exists>g v. update_record c ms u p s = Inl (ValidationError g v)))
       \<and> (data p f = Undefined
            \<longrightarrow> update_field c (store s) u (getDocumentIdFromWhere (store s) u (where_c p)) (data p) f = None
                \<and> (\<forall>s'. update_record c ms u p s = Inr s'
                      \<longrightarrow> map (\<lambda>r. attrs r f) (store s' u) = map (\<lambda>r. attrs r f) (store s u)))"
proof (intro conjI impI allI)
  assume h: "truthy (data p f) \<and> \<not> validateUuid (data p f)"
  then have "update_field c (store s) u (getDocumentIdFromWhere (store s) u (where_c p)) (data p) f \<noteq> None"
    by (auto simp: update_field_def Let_def)
  from beforeUpdate_reject[OF m f x this]
  show "\<exists>g v. beforeUpdate c ms (store s) u p = Some (ValidationError g v)" .
  then show "\<exists>g v. update_record c ms u p s = Inl (ValidationError g v)"
    by (auto simp: update_record_def)
next
  assume h: "truthy (data p f) \<and> validateUniqueness c
          \<and> (\<exists>r\<in>set (store s u). attrs r f = data p f
                \<and> Str (documentId r) \<noteq> getDocumentIdFromWhere (store s) u (where_c p))"
  then have tv: "data p f = Str (str_of (data p f))"
    by (simp add: truthy_Str)
  with h have "isUuidExists c (store s) u f (str_of (data p f))
      (getDocumentIdFromWhere (store s) u (where_c p))"
    by (simp add: isUuidExists_exclude_iff[OF _ x])
  with h have "update_field c (store s) u (getDocumentIdFromWhere (store s) u (where_c p)) (data p) f \<noteq> None"
    by (auto simp: update_field_def Let_def str_of_case)
  from beforeUpdate_reject[OF m f x this]
  show "\<exists>g v. beforeUpdate c ms (store s) u p = Some (ValidationError g v)" .
  then show "\<exists>g v. update_record c ms u p s = Inl (ValidationError g v)"
    by (auto simp: update_record_def)
next
  assume "data p f = Undefined"
  then show "update_field c (store s) u (getDocumentIdFromWhere (store s) u (where_c p)) (data p) f = None"
    by (simp add: update_field_def)
next
  fix s'
  assume "data p f = Undefined" and "update_record c ms u p s = Inr s'"
  then show "map (\<lambda>r. attrs r f) (store s' u) = map (\<lambda>r. attrs r f) (store s u)"
    by (rule update_record_untouched)
qed

theorem beforeUpdate_rejects_witness:
  "(\<exists>g v. beforeUpdate default_config sample_models (store both) article (edit_d2 (Str uuid_a))
            = Some (ValidationError g v))
   \<and> (\<exists>g v. beforeUpdate default_config sample_models (store both) article (edit_d2 (Str ''not-a-uuid''))
            = Some (ValidationError g v))
   \<and> update_field default_config (store both) article
        (getDocumentIdFromWhere (store both) article (where_c (edit_d2 Undefined)))
        (data (edit_d2 Undefined)) ''uid'' = None"
proof -
  have m: "map_of sample_models article = Some [''uid'']"
    by (simp add: sample_models_def)
  have f: "''uid'' \<in> set [''uid'']" by simp
  have x: "truthy (getDocumentIdFromWhere (store both) article (where_c (edit_d2 v)))" for v
    by (simp add: getDocumentIdFromWhere_def edit_d2_def)
  have a: "truthy (data (edit_d2 (Str uuid_a)) ''uid'') \<and> validateUniqueness default_config
      \<and> (\<exists>r\<in>set (store both article). attrs r ''uid'' = data (edit_d2 (Str uuid_a)) ''uid''
            \<and> Str (documentId r) \<noteq> getDocumentIdFromWhere (store both) article (where_c (edit_d2 (Str uuid_a))))"
    by (simp add: edit_d2_def uuid_a_def default_config_def mk_config_def both_def two_docs_def
        one_type_def mk_row_def getDocumentIdFromWhere_def)
  have b: "truthy (data (edit_d2 (Str ''not-a-uuid'')) ''uid'')
      \<and> \<not> validateUuid (data (edit_d2 (Str ''not-a-uuid'')) ''uid'')"
    by (simp add: edit_d2_def validateUuid_def layout_def hexdigits_def eval_nat_numeral)
  have c: "data (edit_d2 Undefined) ''uid'' = Undefined"
    by (simp add: edit_d2_def no_attrs_def)
  from beforeUpdate_rejects[where c = default_config and s = both, OF m f x[of "Str uuid_a"]] a
    beforeUpdate_rejects[where c = default_config and s = both, OF m f x[of "Str ''not-a-uuid''"]] b
    beforeUpdate_rejects[where c = default_config and s = both, OF m f x[of Undefined]] c
  show ?thesis by blast
qed

text \<open>
  Claim C4 as stated fails: the empty string fails the format check, yet an update that
  sets a monitored field to it is accepted and written; and where the \<^verbatim>\<open>where\<close> clause
  names neither a \<^verbatim>\<open>documentId\<close> nor an \<^verbatim>\<open>id\<close> the hook checks nothing.
\<close>

theorem beforeUpdate_rejects_counterexample:
  "\<not> validateUuid (Str [])
   \<and> beforeUpdate default_config sample_models (store both) article (edit_d2 (Str [])) = None
   \<and> (case update_record default_config sample_models article (edit_d2 (Str [])) both of
        Inr s' \<Rightarrow> map (\<lambda>r. attrs r ''uid'') (store s' article) = [Str uuid_a, Str []]
      | Inl err \<Rightarrow> False)
   \<and> \<not> validateUuid (Str ''not-a-uuid'')
   \<and> beforeUpdate default_config sample_models (store both) article
        \<lparr>data = no_attrs(''uid'' := Str ''not-a-uuid''),
         where_c = Some \<lparr>where_documentId = Undefined, where_id = None\<rparr>\<rparr> = None"
  by (simp add: validateUuid_def layout_def hexdigits_def eval_nat_numeral beforeUpdate_def
      sample_models_def getDocumentIdFromWhere_def edit_d2_def update_field_def
      default_config_def mk_config_def isUuidExists_def checkUuidExists_def findFirst_value_def
      both_def two_docs_def one_type_def mk_row_def update_record_def selected_def merge_obj_def
      no_attrs_def article_def)

section \<open>Duplicate groups\<close>

lemma truthy_str_of: "truthy v \<Longrightarrow> v = Str (str_of v) \<and> str_of v \<noteq> []"
  by (cases v) (simp_all add: str_of_def)

lemma holders_snoc:
  "holders f v (rows @ [r]) = (if attrs r f = Str v then holders f v rows @ [documentId r] else holders f v rows)"
  by (simp add: holders_def)

lemma holders_Nil_iff: "holders f v rows = [] \<longleftrightarrow> (\<forall>r\<in>set rows. attrs r f \<noteq> Str v)"
  by (auto simp: holders_def filter_empty_conv)

lemma push_group_new:
  "map_of g v = None \<Longrightarrow> push_group g v x = g @ [(v, [x])]"
  by (simp add: push_group_def)

lemma push_group_old:
  "map_of g v \<noteq> None \<Longrightarrow>
     push_group g v x = map (\<lambda>(k, ds). if k = v then (k, ds @ [x]) else (k, ds)) g"
  by (simp add: push_group_def)

lemma push_group_keys:
  "map_of g v \<noteq> None \<Longrightarrow> map fst (push_group g v x) = map fst g"
  by (simp add: push_group_old) (induction g, auto)

lemma push_group_member:
  assumes "map_of g v \<noteq> None" and "(k, ds) \<in> set (push_group g v x)"
  shows "\<exists>ds'. (k, ds') \<in> set g \<and> ds = (if k = v then ds' @ [x] else ds')"
proof -
  from assms have "(k, ds) \<in> (\<lambda>(k, ds). if k = v then (k, ds @ [x]) else (k, ds)) ` set g"
    by (simp add: push_group_old)
  then obtain k' ds' where m: "(k', ds') \<in> set g"
    and e: "(k, ds) = (if k' = v then (k', ds' @ [x]) else (k', ds'))"
    by auto
  from e have "k = k'" by (simp split: if_splits)
  with e m show ?thesis by (auto split: if_splits)
qed

lemma grouped_push:
  assumes g: "grouped f rows g" and t: "truthy (attrs r f)"
  shows "grouped f (rows @ [r]) (push_group g (str_of (attrs r f)) (documentId r))"
proof -
  define v where "v = str_of (attrs r f)"
  define x where "x = documentId r"
  from truthy_str_of[OF t] have av: "attrs r f = Str v" and vne: "v \<noteq> []"
    by (simp_all add: v_def)
  from g have d: "distinct (map fst g)"
    by (simp add: grouped_def)
  from g have h: "k \<noteq> [] \<and> ds \<noteq> [] \<and> ds = holders f k rows" if "(k, ds) \<in> set g" for k ds
    using that by (force simp: grouped_def)
  from g have c: "str_of (attrs r' f) \<in> fst ` set g"
    if "r' \<in> set rows" "truthy (attrs r' f)" for r'
    using that by (simp add: grouped_def)
  have goal: "grouped f (rows @ [r]) (push_group g v x)"
  proof (cases "map_of g v = None")
    case True
    then have nin: "v \<notin> fst ` set g" by (simp add: map_of_eq_None_iff)
    have none: "holders f v rows = []"
    proof (rule ccontr)
      assume "holders f v rows \<noteq> []"
      then obtain r' where r': "r' \<in> set rows" "attrs r' f = Str v"
        by (auto simp: holders_Nil_iff)
      with vne have "truthy (attrs r' f)" "str_of (attrs r' f) = v"
        by (simp_all add: str_of_def)
      with c[OF r'(1)] nin show False by simp
    qed
    have pg: "push_group g v x = g @ [(v, [x])]"
      by (rule push_group_new[OF True])
    have 1: "distinct (map fst (g @ [(v, [x])]))"
      using d nin by simp
    have 2: "k \<noteq> [] \<and> ds \<noteq> [] \<and> ds = holders f k (rows @ [r])"
      if m: "(k, ds) \<in> set (g @ [(v, [x])])" for k ds
    proof (cases "(k, ds) \<in> set g")
      case True
      then have "k \<in> fst ` set g" by force
      with nin have kv: "k \<noteq> v" by auto
      from h[OF True] have "k \<noteq> []" "ds \<noteq> []" and e: "ds = holders f k rows"
        by blast+
      moreover from kv av have "holders f k (rows @ [r]) = holders f k rows"
        by (simp add: holders_snoc)
      ultimately show ?thesis by simp
    next
      case False
      with m have "k = v" "ds = [x]" by simp_all
      with vne av none show ?thesis by (simp add: holders_snoc x_def)
    qed
    have 3: "str_of (attrs r' f) \<in> fst ` set (g @ [(v, [x])])"
      if "r' \<in> set (rows @ [r])" "truthy (attrs r' f)" for r'
    proof (cases "r' = r")
      case True
      then show ?thesis by (simp add: v_def)
    next
      case False
      with that have "r' \<in> set rows" by simp
      from c[OF this that(2)] show ?thesis by simp
    qed
    show ?thesis
      unfolding grouped_def pg
    proof (intro conjI ballI impI)
      show "distinct (map fst (g @ [(v, [x])]))" by (rule 1)
    next
      fix kd assume "kd \<in> set (g @ [(v, [x])])"
      then have "(fst kd, snd kd) \<in> set (g @ [(v, [x])])" by simp
      from 2[OF this] show "fst kd \<noteq> []" "snd kd \<noteq> []"
        "snd kd = holders f (fst kd) (rows @ [r])" by blast+
    next
      fix r' assume "r' \<in> set (rows @ [r])" "truthy (attrs r' f)"
      then show "str_of (attrs r' f) \<in> fst ` set (g @ [(v, [x])])" by (rule 3)
    qed
  next
    case False
    then have vin: "v \<in> fst ` set g" by (simp add: map_of_eq_None_iff)
    have keys: "map fst (push_group g v x) = map fst g"
      by (rule push_group_keys[OF False])
    have 1: "distinct (map fst (push_group g v x))"
      using d keys by simp
    have 2: "k \<noteq> [] \<and> ds \<noteq> [] \<and> ds = holders f k (rows @ [r])"
      if m: "(k, ds) \<in> set (push_group g v x)" for k ds
    proof -
      from push_group_member[OF False m] obtain ds' where m': "(k, ds') \<in> set g"
        and ds: "ds = (if k = v then ds' @ [x] else ds')"
        by blast
      from h[OF m'] have "k \<noteq> []" "ds' \<noteq> []" and e: "ds' = holders f k rows"
        by blast+
      then show ?thesis
        using ds av by (cases "k = v") (simp_all add: holders_snoc x_def)
    qed
    have fs: "fst ` set (push_group g v x) = fst ` set g"
    proof -
      have "set (map fst (push_group g v x)) = set (map fst g)"
        by (simp only: keys)
      then show ?thesis by simp
    qed
    have 3: "str_of (attrs r' f) \<in> fst ` set (push_group g v x)"
      if "r' \<in> set (rows @ [r])" "truthy (attrs r' f)" for r'
    proof (cases "r' = r")
      case True
      with vin fs show ?thesis by (simp add: v_def)
    next
      case False
      with that have "r' \<in> set rows" by simp
      from c[OF this that(2)] fs show ?thesis by simp
    qed
    show ?thesis
      unfolding grouped_def
    proof (intro conjI ballI impI)
      show "distinct (map fst (push_group g v x))" by (rule 1)
    next
      fix kd assume "kd \<in> set (push_group g v x)"
      then have "(fst kd, snd kd) \<in> set (push_group g v x)" by simp
      from 2[OF this] show "fst kd \<noteq> []" "snd kd \<noteq> []"
        "snd kd = holders f (fst kd) (rows @ [r])" by blast+
    next
      fix r' assume "r' \<in> set (rows @ [r])" "truthy (attrs r' f)"
      then show "str_of (attrs r' f) \<in> fst ` set (push_group g v x)" by (rule 3)
    qed
  qed
  then show ?thesis by (simp add: v_def x_def)
qed

lemma grouped_step:
  "grouped f rows g \<Longrightarrow> grouped f (rows @ [r]) (group_step f g r)"
proof (cases "truthy (attrs r f)")
  case True
  assume "grouped f rows g"
  from grouped_push[OF this True] True show ?thesis by (simp add: group_step_def)
next
  case False
  assume g: "grouped f rows g"
  from False have n: "attrs r f \<noteq> Str v" if "v \<noteq> []" for v
    using that by auto
  from g False show ?thesis
    unfolding grouped_def group_step_def
    by (auto simp: holders_snoc n)
qed

lemma grouped_foldl:
  "grouped f rows0 g0 \<Longrightarrow> grouped f (rows0 @ rows) (foldl (group_step f) g0 rows)"
proof (induction rows arbitrary: rows0 g0)
  case Nil
  then show ?case by simp
next
  case (Cons r rows)
  from Cons.IH[OF grouped_step[OF Cons.prems, of r]] show ?case by simp
qed

lemma grouped_scan: "grouped f rows (foldl (group_step f) [] rows)"
proof -
  have "grouped f [] []" by (simp add: grouped_def)
  from grouped_foldl[OF this, of rows] show ?thesis by simp
qed

lemma group_entries_foldl:
  "group_entries f rows g0 = Inr g \<Longrightarrow> g = foldl (group_step f) g0 rows"
proof (induction rows arbitrary: g0)
  case Nil
  then show ?case by simp
next
  case (Cons r rows)
  show ?case
  proof (cases "truthy (attrs r f)")
    case False
    with Cons.prems have "group_entries f rows g0 = Inr g" by simp
    from Cons.IH[OF this] False show ?thesis by (simp add: group_step_def)
  next
    case True
    then obtain v where v: "attrs r f = Str v" "v \<noteq> []" by (cases "attrs r f") auto
    with Cons.prems have "group_entries f rows (push_group g0 v (documentId r)) = Inr g"
      by (simp split: if_splits)
    from Cons.IH[OF this] v show ?thesis by (simp add: group_step_def str_of_def)
  qed
qed

lemma scan_entries_groups:
  "snd (snd (snd (scan_entries f rows ec ic iss dm))) = foldl (group_step f) dm rows"
  by (induction rows arbitrary: ec ic iss dm) (simp_all add: group_step_def Let_def)

lemma scan_entries_issues:
  "is_duplicate i \<Longrightarrow> i \<in> set (fst (snd (snd (scan_entries f rows ec ic iss dm)))) \<Longrightarrow> i \<in> set iss"
proof (induction rows arbitrary: ec ic iss dm)
  case Nil
  then show ?case by simp
next
  case (Cons r rows)
  show ?case
  proof (cases "truthy (attrs r f)")
    case False
    with Cons.prems(2) have "i \<in> set (fst (snd (snd (scan_entries f rows (Suc ec) ic iss dm))))"
      by (simp add: Let_def)
    from Cons.IH[OF Cons.prems(1) this] show ?thesis .
  next
    case True
    show ?thesis
    proof (cases "validateUuid (attrs r f)")
      case True
      with \<open>truthy (attrs r f)\<close> Cons.prems(2)
      have "i \<in> set (fst (snd (snd (scan_entries f rows ec ic iss
              (push_group dm (str_of (attrs r f)) (documentId r))))))"
        by (simp add: Let_def)
      from Cons.IH[OF Cons.prems(1) this] show ?thesis .
    next
      case False
      with \<open>truthy (attrs r f)\<close> Cons.prems(2)
      have "i \<in> set (fst (snd (snd (scan_entries f rows ec (Suc ic)
              (iss @ [InvalidIssue (documentId r) (str_of (attrs r f))])
              (push_group dm (str_of (attrs r f)) (documentId r))))))"
        by (simp add: Let_def)
      from Cons.IH[OF Cons.prems(1) this] Cons.prems(1) show ?thesis by auto
    qed
  qed
qed

lemma set_object_entries: "set (object_entries g) = set g"
  by (auto simp: object_entries_def)

lemma distinct_holders: "distinct (map documentId rows) \<Longrightarrow> distinct (holders f v rows)"
  by (simp add: holders_def distinct_map_filter)

text \<open>
  What the two scans report: every duplicate group of \<^verbatim>\<open>findDuplicatesForField\<close>, and
  every duplicate issue of \<^verbatim>\<open>checkMigrationStatus\<close>, lists the \<^verbatim>\<open>documentId\<close>s of
  the entries of the scan that hold the value, one per entry, and there are at least two
  such entries. Only when the scan returns one entry per Record Identity are the listed
  identities pairwise distinct.
\<close>

lemma duplicate_groups_hold:
  "(findDuplicatesForField d u f = Inr gs \<and> g \<in> set gs \<longrightarrow>
      documentIds g = holders f (uuid g) (findMany d u) \<and> count g = length (documentIds g)
      \<and> 2 \<le> length (documentIds g)
      \<and> (distinct (map documentId (findMany d u)) \<longrightarrow>
            distinct (documentIds g) \<and> 2 \<le> card (set (documentIds g))))
   \<and> (DuplicateIssue v n ds \<in> set (issues (check_field d u f a)) \<longrightarrow>
      ds = holders f v (findMany d u) \<and> n = length ds \<and> 2 \<le> length ds
      \<and> (distinct (map documentId (findMany d u)) \<longrightarrow> distinct ds \<and> 2 \<le> card (set ds)))"
proof (intro conjI impI)
  assume h: "findDuplicatesForField d u f = Inr gs \<and> g \<in> set gs"
  then have fd: "findDuplicatesForField d u f = Inr gs" by simp
  obtain grp where grp: "group_entries f (findMany d u) [] = Inr grp"
    using fd by (cases "group_entries f (findMany d u) []") (simp_all add: findDuplicatesForField_def)
  have gs: "gs = map (\<lambda>(v, ds). \<lparr>uuid = v, count = length ds, documentIds = ds\<rparr>)
                 (filter (\<lambda>(v, ds). length ds > 1) (object_entries grp))"
    using fd grp by (simp add: findDuplicatesForField_def)
  from group_entries_foldl[OF grp] grouped_scan[of f "findMany d u"]
  have gd: "grouped f (findMany d u) grp" by simp
  from h have "g \<in> set gs" by simp
  then have "g \<in> (\<lambda>(v, ds). \<lparr>uuid = v, count = length ds, documentIds = ds\<rparr>)
                ` {x \<in> set grp. case x of (v, ds) \<Rightarrow> length ds > 1}"
    unfolding gs by (simp add: set_object_entries)
  then obtain k ks where m: "(k, ks) \<in> set grp" and l: "length ks > 1"
    and g: "g = \<lparr>uuid = k, count = length ks, documentIds = ks\<rparr>"
    by auto
  from gd m have ks: "ks = holders f k (findMany d u)"
    by (force simp: grouped_def)
  show "documentIds g = holders f (uuid g) (findMany d u)" using g ks by simp
  show "count g = length (documentIds g)" using g by simp
  show "2 \<le> length (documentIds g)" using g l by simp
  assume "distinct (map documentId (findMany d u))"
  from distinct_holders[OF this, of f k] ks have dk: "distinct ks" by simp
  then show "distinct (documentIds g)" using g by simp
  from dk l show "2 \<le> card (set (documentIds g))"
    using g by (simp add: distinct_card)
next
  assume h: "DuplicateIssue v n ds \<in> set (issues (check_field d u f a))"
  obtain ec ic iss dm where sc: "scan_entries f (findMany d u) 0 0 [] [] = (ec, ic, iss, dm)"
    by (cases "scan_entries f (findMany d u) 0 0 [] []") auto
  from scan_entries_groups[of f "findMany d u" 0 0 "[]" "[]"] sc
  have dm: "dm = foldl (group_step f) [] (findMany d u)" by simp
  with grouped_scan[of f "findMany d u"] have gd: "grouped f (findMany d u) dm" by simp
  have "DuplicateIssue v n ds \<notin> set iss"
    using scan_entries_issues[of "DuplicateIssue v n ds" f "findMany d u" 0 0 "[]" "[]"] sc
    by auto
  with h sc have "DuplicateIssue v n ds \<in> set (duplicate_issues dm)"
    by (simp add: check_field_def Let_def)
  then have m: "(v, ds) \<in> set dm" and l: "length ds > 1" and n: "n = length ds"
    by (auto simp: duplicate_issues_def)
  from gd m have ks: "ds = holders f v (findMany d u)"
    by (force simp: grouped_def)
  show "ds = holders f v (findMany d u)" by (rule ks)
  show "n = length ds" by (rule n)
  show "2 \<le> length ds" using l by simp
  assume "distinct (map documentId (findMany d u))"
  from distinct_holders[OF this, of f v] ks show dk: "distinct ds" by simp
  from dk l show "2 \<le> card (set ds)" by (simp add: distinct_card)
qed


section \<open>Import of a snapshot\<close>






section \<open>The prefix option\<close>

text \<open>
  Claim C9 does not hold of the code: the generator takes no prefix. For a field whose
  schema carries the prefix \<^verbatim>\<open>usr_\<close>, a create with an empty value stores the bare value
  of the library.
\<close>

theorem generateUuid_ignores_prefix:
  "map (\<lambda>(u, as). (u, map (\<lambda>(n, a). (n, uuid_prefix a)) as)) prefixed_types
      = [(article, [(''uid'', Some ''usr_'')])]
   \<and> getUuidModels prefixed_types = [(article, [''uid''])]
   \<and> (case create default_config (lib_of [uuid_a]) (getUuidModels prefixed_types) article
             \<lparr>data = no_attrs, where_c = None\<rparr> 1 ''d1'' \<lparr>store = one_type [], drawn = 0\<rparr> of
         (Inr r, s') \<Rightarrow> attrs r ''uid'' = Str uuid_a
                          \<and> map (\<lambda>r. attrs r ''uid'') (store s' article) = [Str uuid_a]
       | (Inl err, s') \<Rightarrow> False)
   \<and> \<not> startsWith uuid_a ''usr_''
   \<and> fst (generateUuid (lib_of [uuid_a]) ''v4'' \<lparr>store = one_type [], drawn = 0\<rparr>) = uuid_a"
  by code_simp

section \<open>Errors during the bulk fix\<close>

text \<open>
  Claim C7 does not hold of the code for the empty category. With two empty records and
  the write to the first one throwing, the live run logs one change and one error, and
  never reaches the second record, which stays empty. In the invalid category the same
  failure leaves the second record processed and fixed.
\<close>

theorem runMigration_empty_fix_aborts:
  "map m_documentId (r_changes (fst (runMigration (failing_on ''d1'' [uuid_a, uuid_b]) sample_types live two_empty)))
      = [''d1'']
   \<and> errors (fst (runMigration (failing_on ''d1'' [uuid_a, uuid_b]) sample_types live two_empty))
      = [FailedEmpty article ''uid'']
   \<and> fixed_empty (fst (runMigration (failing_on ''d1'' [uuid_a, uuid_b]) sample_types live two_empty)) = 0
   \<and> map (\<lambda>r. attrs r ''uid'')
        (store (snd (runMigration (failing_on ''d1'' [uuid_a, uuid_b]) sample_types live two_empty)) article)
      = [Null, Null]
   \<and> map m_documentId (r_changes (fst (runMigration (failing_on ''d1'' [uuid_a, uuid_b]) sample_types live two_invalid)))
      = [''d1'', ''d2'']
   \<and> errors (fst (runMigration (failing_on ''d1'' [uuid_a, uuid_b]) sample_types live two_invalid))
      = [FailedInvalid article ''uid'' ''d1'']
   \<and> map (\<lambda>r. attrs r ''uid'')
        (store (snd (runMigration (failing_on ''d1'' [uuid_a, uuid_b]) sample_types live two_invalid)) article)
      = [Str ''x'', Str uuid_b]"
  by code_simp

section \<open>Replaying the writes of a repair\<close>


lemma length_number [simp]: "length (number mk n ts) = length ts"
  by (induction ts arbitrary: n) simp_all

lemma replay_Nil [simp]: "replay d [] = d"
  by (simp add: replay_def)





lemma state_after_zero [simp]: "state_after dry 0 [] s = s"
  by (simp add: state_after_def)

lemma store_after_dry [simp]: "store (state_after True k ws s) = store s"
  by (simp add: state_after_def)

lemma store_after_live [simp]: "store (state_after False k ws s) = replay (store s) ws"
  by (simp add: state_after_def)

lemma drawn_after [simp]: "drawn (state_after dry k ws s) = drawn s + k"
  by (simp add: state_after_def)

lemma mk_change_apply [simp]:
  "mk_change e i (x, old, keep) =
     \<lparr>ch_documentId = x, oldUuid = old, newUuid = uuidv4 e i, kept = keep\<rparr>"
  by (simp add: mk_change_def)



lemma length_change_writes [simp]: "length (change_writes u f cs) = length cs"
  by (simp add: change_writes_def)

lemma group_targets_Nil [simp]: "group_targets [] = []"
  by (simp add: group_targets_def)


lemma length_member_targets [simp]: "length (member_targets old keep xs) = length xs"
  by (simp add: member_targets_def)




subsection \<open>Scans read one column\<close>







subsection \<open>The repair of duplicates, dry and live\<close>




lemma startsWith_filter_distinct:
  "distinct (map fst xs) \<Longrightarrow> distinct (map fst (filter P xs))"
  by (simp add: distinct_map_filter)




section \<open>The migration, dry and live\<close>

lemma mk_mig_change_apply [simp]:
  "mk_mig_change e u f i (ty, x, old, k) =
     \<lparr>m_type = ty, m_uid = u, m_field = f, m_documentId = x, oldValue = old,
      newValue = uuidv4 e i, keptDocumentId = k\<rparr>"
  by (simp add: mk_mig_change_def)

lemma logged_Nil [simp]: "logged res [] = res"
  by (simp add: logged_def count_type_def)



lemma mig_writes_Nil [simp]: "mig_writes [] = []"
  by (simp add: mig_writes_def)

lemma length_mig_writes [simp]: "length (mig_writes cs) = length cs"
  by (simp add: mig_writes_def)






lemma length_empty_targets [simp]: "length (empty_targets xs) = length xs"
  by (simp add: empty_targets_def)







section \<open>Dry run and live run\<close>

lemma field_targets_dryRun [simp]:
  "field_targets (opts\<lparr>opt_dryRun := b\<rparr>) d fi = field_targets opts d fi"
  by (simp add: field_targets_def)

lemma fields_plan_dryRun [simp]:
  "fields_plan e (opts\<lparr>opt_dryRun := b\<rparr>) d n fis = fields_plan e opts d n fis"
  by (induction fis arbitrary: n) simp_all





end
